theory Spec2Isabelle
  imports Main "HOL-Library.Word" "HOL-Library.Sublist"
begin

section \<open>Values, errors and the 8-byte length codec\<close>

text \<open>
  The program is a Python module. Byte strings are lists of 8-bit words; Python's
  unbounded integers are \<open>int\<close>. A decoded message (the result of \<open>bytes_to_dict\<close>)
  is a map from keys to JSON values.
\<close>

type_synonym byte = "8 word"
type_synonym bytes = "byte list"

datatype jval =
    JNull
  | JBool bool
  | JInt int
  | JFloat int int
  | JStr string
  | JList "jval list"
  | JDict "(string \<times> jval) list"

type_synonym pydict = "string \<rightharpoonup> jval"

text \<open>The objects \<open>from_be8\<close> can be handed: a byte string, or something else.\<close>

datatype pyval = PyBytes bytes | PyStr string | PyInt int | PyNone

text \<open>
  Every \<open>raise\<close> of the module is a value. \<open>RuntimeError\<close> carries which of the
  module's messages it is, with the values the message is formatted from. \<open>ClosedFile\<close>
  is the \<open>ValueError\<close> Python raises on a write to a closed file, kept apart from the
  bare \<open>ValueError\<close> of the length codec. \<open>DecodeError\<close> and \<open>InsecurePath\<close> are what
  the library calls (\<open>bytes_to_dict\<close>, \<open>FilePath.child\<close>) may raise.
\<close>

datatype rt_msg =
    ReceiverOverflow
  | UnexpectedClose
  | UnknownHeaderType jval
  | UnknownCompression jval
  | UnknownSize jval
  | DataAfterDone
  | PrematureAck
  | AckNotOk pydict
  | AckBadHash jval string

datatype error =
    ValueError
  | ClosedFile
  | TypeError
  | KeyError string
  | AttributeError
  | AssertionError
  | RuntimeError rt_msg
  | DecodeError
  | InsecurePath

text \<open>
  \<open>struct.pack(">Q", v)\<close> and \<open>struct.unpack(">Q", b)[0]\<close>: eight bytes, most
  significant first.
\<close>

fun be_bytes :: "nat \<Rightarrow> int \<Rightarrow> bytes" where
  "be_bytes 0 v = []"
| "be_bytes (Suc n) v = be_bytes n (v div 256) @ [word_of_int (v mod 256)]"

definition struct_pack_Q :: "int \<Rightarrow> bytes" where
  "struct_pack_Q v = be_bytes 8 v"

definition struct_unpack_Q :: "bytes \<Rightarrow> int" where
  "struct_unpack_Q b = foldl (\<lambda>acc x. acc * 256 + uint x) 0 b"

definition to_be8 :: "int \<Rightarrow> error + bytes" where
  "to_be8 v = (if \<not> (0 \<le> v \<and> v < 2 ^ 64) then Inl ValueError else Inr (struct_pack_Q v))"

definition from_be8 :: "pyval \<Rightarrow> error + int" where
  "from_be8 b =
     (case b of
        PyBytes bs \<Rightarrow> if length bs \<noteq> 8 then Inl ValueError else Inr (struct_unpack_Q bs)
      | _ \<Rightarrow> Inl TypeError)"

section \<open>What the module imports\<close>

text \<open>
  The module calls functions it does not define: \<open>dict_to_bytes\<close> and \<open>bytes_to_dict\<close>
  (\<open>wormhole.util\<close>), \<open>hashlib.sha256\<close> and Twisted's \<open>FilePath.child\<close>. They are
  parameters of the model. A \<open>hashlib\<close> hasher is the byte string fed to it so far;
  \<open>sha256_hexdigest\<close> maps that string to the hex digest. \<open>error_overrides\<close> is
  what \<open>OneShotObserver.error\<close> does to an observer that has already fired (see
  below).
\<close>

record externals =
  dict_to_bytes :: "pydict \<Rightarrow> bytes"
  bytes_to_dict :: "bytes \<Rightarrow> error + pydict"
  sha256_hexdigest :: "bytes \<Rightarrow> string"
  child :: "string \<Rightarrow> error + string"
  error_overrides :: bool

text \<open>
  Modelled from the spec: \<open>wormhole.observer.OneShotObserver\<close>, which the module
  imports and whose code is not part of it. The spec (section 9) calls it a one-shot
  "fire once" observer: exactly one terminal value, success or error, is ever
  delivered. The observer is the value delivered so far, if any; firing one that
  has already fired with \<open>fire\<close> delivers nothing and is an error.
\<close>

definition OneShotObserver_fire :: "'a option \<Rightarrow> 'a \<Rightarrow> error + 'a option" where
  "OneShotObserver_fire obs res =
     (case obs of None \<Rightarrow> Inr (Some res) | Some _ \<Rightarrow> Inl AssertionError)"

text \<open>
  Modelled from the spec: \<open>OneShotObserver.error\<close>, the method \<open>connectionLost\<close> calls
  with a failure. On an observer that has not fired it delivers the failure. What
  it does to one that has already fired is said neither by the module nor by the
  spec, so both readings are kept: it puts the failure in place of the earlier
  value (\<open>overrides\<close>), or it fails as \<open>fire\<close> does and keeps the earlier value.
\<close>

definition OneShotObserver_error :: "bool \<Rightarrow> 'a option \<Rightarrow> 'a \<Rightarrow> error + 'a option" where
  "OneShotObserver_error overrides obs f =
     (case obs of
        None \<Rightarrow> Inr (Some f)
      | Some _ \<Rightarrow> if overrides then Inr (Some f) else Inl AssertionError)"

section \<open>The frame decoder of the read handlers\<close>

text \<open>
  \<open>ReceiveProtocol.dataReceived\<close> (lines 61-67 and 71), \<open>SendProtocol.dataReceived\<close>
  (lines 191-197) and \<open>ControlProtocol.dataReceived\<close> (lines 241-247) run the same
  statements on their buffer once the new data is appended: return when fewer than
  8 bytes are there, read the length, return when fewer than 8 + length bytes are
  there, else slice the payload out. \<open>read_frame\<close> is these statements: \<open>Inr None\<close> is
  the early \<open>return\<close>, \<open>Inr (Some (payload, rest))\<close> the payload \<open>buf[8:8+n]\<close> with
  \<open>buf[8+n:]\<close>, which only \<open>ReceiveProtocol\<close> computes (line 71).
\<close>

definition read_frame :: "bytes \<Rightarrow> error + (bytes \<times> bytes) option" where
  "read_frame buf =
     (let have = length buf in
      if have < 8 then Inr None
      else
        (case from_be8 (PyBytes (take 8 buf)) of
           Inl e \<Rightarrow> Inl e
         | Inr n \<Rightarrow>
             if int have < 8 + n then Inr None
             else Inr (Some (take (nat n) (drop 8 buf), drop (8 + nat n) buf))))"

section \<open>Receiver\<close>

text \<open>
  The destination file object: its path, what has been written, and whether it is
  closed. Python raises on a write to a closed file.
\<close>

record sink =
  fd_path :: string
  fd_data :: bytes
  fd_closed :: bool

definition fd_write :: "sink \<Rightarrow> bytes \<Rightarrow> error + sink" where
  "fd_write f data =
     (if fd_closed f then Inl ClosedFile else Inr (f\<lparr>fd_data := fd_data f @ data\<rparr>))"

definition fd_close :: "sink \<Rightarrow> sink" where
  "fd_close f = f\<lparr>fd_closed := True\<rparr>"

record Receiver =
  fd :: sink
  remaining :: int
  hasher :: bytes
  progress :: int

text \<open>
  A method returns its result (or the exception it raised) and the object as the
  call left it: an exception does not undo the assignments made before it.
\<close>

definition Receiver_finish :: "externals \<Rightarrow> Receiver \<Rightarrow> pydict \<times> Receiver" where
  "Receiver_finish X r =
     (let r1 = r\<lparr>fd := fd_close (fd r)\<rparr>;
          datahash_hex = sha256_hexdigest X (hasher r1);
          ack = [''ack'' \<mapsto> JStr ''ok'', ''sha256'' \<mapsto> JStr datahash_hex]
      in (ack, r1))"

definition Receiver_write ::
  "externals \<Rightarrow> Receiver \<Rightarrow> bytes \<Rightarrow> (error + pydict option) \<times> Receiver" where
  "Receiver_write X r data =
     (let r1 = r\<lparr>hasher := hasher r @ data\<rparr> in
      case fd_write (fd r1) data of
        Inl e \<Rightarrow> (Inl e, r1)
      | Inr f \<Rightarrow>
          (let r2 = r1\<lparr>fd := f\<rparr>;
               r3 = r2\<lparr>progress := progress r2 + int (length data)\<rparr>;
               r4 = r3\<lparr>remaining := remaining r3 - int (length data)\<rparr>
           in if remaining r4 = 0 then
                (case Receiver_finish X r4 of (ack, r5) \<Rightarrow> (Inr (Some ack), r5))
              else if remaining r4 < 0 then (Inl (RuntimeError ReceiverOverflow), r4)
              else (Inr None, r4)))"


text \<open>
  Successive deliveries to one receiver: \<open>write\<close> is called once per chunk, on the
  receiver as the previous call left it. The results of the calls are collected.
\<close>

fun Receiver_write_all ::
  "externals \<Rightarrow> Receiver \<Rightarrow> bytes list \<Rightarrow> (error + pydict option) list \<times> Receiver" where
  "Receiver_write_all X r [] = ([], r)"
| "Receiver_write_all X r (d # ds) =
     (case Receiver_write X r d of
        (res, r1) \<Rightarrow> (case Receiver_write_all X r1 ds of (rs, r2) \<Rightarrow> (res # rs, r2)))"

section \<open>ReceiverFactory.incoming_file\<close>

text \<open>\<open>isinstance(size, six.integer_types)\<close>: an \<open>int\<close>, or a \<open>bool\<close> (a subclass of \<open>int\<close>).\<close>

fun is_integer :: "jval \<Rightarrow> bool" where
  "is_integer (JInt n) = True"
| "is_integer (JBool b) = True"
| "is_integer v = False"

fun int_of_jval :: "jval \<Rightarrow> int" where
  "int_of_jval (JInt n) = n"
| "int_of_jval (JBool b) = (if b then 1 else 0)"
| "int_of_jval v = 0"

text \<open>Lines 121-128: the checks on the header; the result is \<open>size\<close>.\<close>

definition incoming_file_checks :: "pydict \<Rightarrow> error + jval" where
  "incoming_file_checks header =
     (case header ''type'' of
        None \<Rightarrow> Inl (KeyError ''type'')
      | Some ty \<Rightarrow>
          if ty \<noteq> JStr ''file'' then Inl (RuntimeError (UnknownHeaderType ty))
          else
            (case header ''compression'' of
               Some c \<Rightarrow> Inl (RuntimeError (UnknownCompression c))
             | None \<Rightarrow>
                 (case header ''size'' of
                    None \<Rightarrow> Inl (KeyError ''size'')
                  | Some sz \<Rightarrow>
                      if \<not> is_integer sz then Inl (RuntimeError (UnknownSize sz))
                      else Inr sz)))"

text \<open>\<open>"%d" % count\<close> for a count that is never negative.\<close>

definition digit :: "nat \<Rightarrow> char" where
  "digit d = ''0123456789'' ! d"

fun show_nat :: "nat \<Rightarrow> string" where
  "show_nat n = (if n < 10 then [digit n] else show_nat (n div 10) @ [digit (n mod 10)])"

declare show_nat.simps [simp del]

text \<open>
  Lines 135-138: the loop that looks for a free name. \<open>existing\<close> lists the paths
  present in the downloads directory, so \<open>target.exists()\<close> is membership. Whether
  the loop ends depends on what \<open>child\<close> returns: not returning is \<open>None\<close>.
\<close>

partial_function (option) find_target ::
  "externals \<Rightarrow> string list \<Rightarrow> string \<Rightarrow> nat \<Rightarrow> string \<Rightarrow> (error + string) option" where
  "find_target X existing hname count target =
     (if target \<in> set existing then
        (case child X (hname @ '' ('' @ show_nat count @ '')'') of
           Inl e \<Rightarrow> Some (Inl e)
         | Inr t \<Rightarrow> find_target X existing hname (count + 1) t)
      else Some (Inr target))"

text \<open>
  The paths the loop tries, in order: the child for the name itself (line 133), then
  the children for \<open>"name (1)"\<close>, \<open>"name (2)"\<close> and so on (lines 136-138).
\<close>

definition candidate :: "externals \<Rightarrow> string \<Rightarrow> nat \<Rightarrow> error + string" where
  "candidate X hname k =
     (if k = 0 then child X hname else child X (hname @ '' ('' @ show_nat k @ '')''))"

text \<open>
  Lines 133-146. \<open>FilePath.child\<close> raises \<open>TypeError\<close> on a name that is not a string.
  \<open>target.open("wb")\<close> creates the file, empty and open; the model takes it to
  succeed. The progress bar is its counter.
\<close>

definition incoming_file_open ::
  "externals \<Rightarrow> string list \<Rightarrow> pydict \<Rightarrow> jval \<Rightarrow> (error + Receiver \<times> string list) option" where
  "incoming_file_open X existing header sz =
     (case header ''name'' of
        None \<Rightarrow> Some (Inl (KeyError ''name''))
      | Some (JStr hname) \<Rightarrow>
          (case child X hname of
             Inl e \<Rightarrow> Some (Inl e)
           | Inr target0 \<Rightarrow>
               (case find_target X existing hname 1 target0 of
                  None \<Rightarrow> None
                | Some (Inl e) \<Rightarrow> Some (Inl e)
                | Some (Inr target) \<Rightarrow>
                    Some (Inr (\<lparr>fd = \<lparr>fd_path = target, fd_data = [], fd_closed = False\<rparr>,
                                 remaining = int_of_jval sz, hasher = [], progress = 0\<rparr>,
                               target # existing))))
      | Some _ \<Rightarrow> Some (Inl TypeError))"

definition incoming_file ::
  "externals \<Rightarrow> string list \<Rightarrow> pydict \<Rightarrow> (error + Receiver \<times> string list) option" where
  "incoming_file X existing header =
     (case incoming_file_checks header of
        Inl e \<Rightarrow> Some (Inl e)
      | Inr sz \<Rightarrow> incoming_file_open X existing header sz)"

section \<open>ReceiveProtocol\<close>

text \<open>
  \<open>rp_transport\<close> is the list of writes made on the transport, \<open>rp_downloads\<close> the
  listing of the factory's downloads directory. \<open>del self._header_buffer\<close> leaves the
  buffer empty: it is not read again.
\<close>

record ReceiveProtocol =
  in_header :: bool
  header_buffer :: bytes
  receiver :: "Receiver option"
  rp_transport :: "bytes list"
  rp_downloads :: "string list"

definition ReceiveProtocol_init :: "string list \<Rightarrow> ReceiveProtocol" where
  "ReceiveProtocol_init existing =
     \<lparr>in_header = True, header_buffer = [], receiver = None, rp_transport = [],
      rp_downloads = existing\<rparr>"

text \<open>
  Lines 74-78: hand the data to the receiver and write the reply frame, if any.
  The only reply \<open>write\<close> returns is the ack of \<open>finish\<close>, a dict with two keys, so
  \<open>if resp_msg\<close> holds exactly when there is a reply. With no receiver set the
  attribute access on \<open>None\<close> raises.
\<close>

definition ReceiveProtocol_write ::
  "externals \<Rightarrow> ReceiveProtocol \<Rightarrow> bytes \<Rightarrow> (error + unit) \<times> ReceiveProtocol" where
  "ReceiveProtocol_write X s data =
     (case receiver s of
        None \<Rightarrow> (Inl AttributeError, s)
      | Some r \<Rightarrow>
          (case Receiver_write X r data of
             (Inl e, r') \<Rightarrow> (Inl e, s\<lparr>receiver := Some r'\<rparr>)
           | (Inr None, r') \<Rightarrow> (Inr (), s\<lparr>receiver := Some r'\<rparr>)
           | (Inr (Some resp_msg), r') \<Rightarrow>
               (let resp_bytes = dict_to_bytes X resp_msg;
                    s1 = s\<lparr>receiver := Some r'\<rparr>
                in case to_be8 (int (length resp_bytes)) of
                     Inl e \<Rightarrow> (Inl e, s1)
                   | Inr pre \<Rightarrow>
                       (Inr (), s1\<lparr>rp_transport := rp_transport s1 @ [pre, resp_bytes]\<rparr>))))"

definition ReceiveProtocol_dataReceived ::
  "externals \<Rightarrow> ReceiveProtocol \<Rightarrow> bytes \<Rightarrow> ((error + unit) \<times> ReceiveProtocol) option" where
  "ReceiveProtocol_dataReceived X s data =
     (if in_header s then
        (let s1 = s\<lparr>header_buffer := header_buffer s @ data\<rparr> in
         case read_frame (header_buffer s1) of
           Inl e \<Rightarrow> Some (Inl e, s1)
         | Inr None \<Rightarrow> Some (Inr (), s1)
         | Inr (Some (header_bytes, rest)) \<Rightarrow>
             (case bytes_to_dict X header_bytes of
                Inl e \<Rightarrow> Some (Inl e, s1)
              | Inr header \<Rightarrow>
                  (case incoming_file X (rp_downloads s1) header of
                     None \<Rightarrow> None
                   | Some (Inl e) \<Rightarrow> Some (Inl e, s1)
                   | Some (Inr (r, listing)) \<Rightarrow>
                       Some (ReceiveProtocol_write X
                         (s1\<lparr>receiver := Some r, rp_downloads := listing,
                             in_header := False, header_buffer := []\<rparr>) rest))))
      else Some (ReceiveProtocol_write X s data))"

text \<open>
  Successive deliveries to one protocol: \<open>dataReceived\<close> is called once per chunk, on
  the protocol as the previous call left it. The results of the calls are collected.
\<close>

fun ReceiveProtocol_dataReceived_all ::
  "externals \<Rightarrow> ReceiveProtocol \<Rightarrow> bytes list \<Rightarrow>
     ((error + unit) list \<times> ReceiveProtocol) option" where
  "ReceiveProtocol_dataReceived_all X s [] = Some ([], s)"
| "ReceiveProtocol_dataReceived_all X s (d # ds) =
     (case ReceiveProtocol_dataReceived X s d of
        None \<Rightarrow> None
      | Some (res, s1) \<Rightarrow>
          (case ReceiveProtocol_dataReceived_all X s1 ds of
             None \<Rightarrow> None
           | Some (rs, s2) \<Rightarrow> Some (res # rs, s2)))"


section \<open>SendProtocol\<close>

text \<open>What the done observer of a \<open>SendProtocol\<close> is fired with: \<open>"ok"\<close>, or a failure.\<close>

datatype done_result = FiredOk | Failure string

text \<open>
  \<open>sp_fd\<close> is what is left to read of the source file, \<open>sp_hasher\<close> the hasher that
  \<open>connectionMade\<close> creates and its callbacks share, \<open>sp_transport\<close> the list of writes
  made on the transport and \<open>sp_disconnecting\<close> whether \<open>loseConnection\<close> was called.
\<close>

record SendProtocol =
  sp_fd :: bytes
  sp_header :: pydict
  sp_size :: int
  sp_done_observer :: "done_result option"
  sp_expected_hexhash :: "string option"
  sp_ack_buffer :: bytes
  sp_done :: bool
  sp_hasher :: bytes
  sp_transport :: "bytes list"
  sp_disconnecting :: bool

definition SendProtocol_init :: "bytes \<Rightarrow> pydict \<Rightarrow> int \<Rightarrow> SendProtocol" where
  "SendProtocol_init file header sz =
     \<lparr>sp_fd = file, sp_header = header, sp_size = sz, sp_done_observer = None,
      sp_expected_hexhash = None, sp_ack_buffer = [], sp_done = False, sp_hasher = [],
      sp_transport = [], sp_disconnecting = False\<rparr>"

text \<open>
  Lines 163-184. \<open>connectionMade\<close> writes the serialized header and hands the file to
  a Twisted \<open>FileSender\<close>, which from then on is asked for one chunk at a time.
\<close>

definition SendProtocol_connectionMade :: "externals \<Rightarrow> SendProtocol \<Rightarrow> SendProtocol" where
  "SendProtocol_connectionMade X s =
     (let header_bytes = dict_to_bytes X (sp_header s)
      in s\<lparr>sp_transport := sp_transport s @ [header_bytes], sp_hasher := []\<rparr>)"

text \<open>
  One \<open>FileSender.resumeProducing\<close>: read up to \<open>CHUNK_SIZE\<close> bytes; an empty read is
  the end of the file and runs the callback \<open>done\<close> (line 182); any other chunk goes
  through \<open>_count_and_hash\<close> (lines 170-173) and is written to the transport.
\<close>

definition CHUNK_SIZE :: nat where
  "CHUNK_SIZE = 2 ^ 14"

definition FileSender_resumeProducing :: "externals \<Rightarrow> SendProtocol \<Rightarrow> SendProtocol" where
  "FileSender_resumeProducing X s =
     (let chunk = take CHUNK_SIZE (sp_fd s) in
      if chunk = [] then s\<lparr>sp_expected_hexhash := Some (sha256_hexdigest X (sp_hasher s))\<rparr>
      else s\<lparr>sp_fd := drop CHUNK_SIZE (sp_fd s),
             sp_hasher := sp_hasher s @ chunk,
             sp_transport := sp_transport s @ [chunk]\<rparr>)"

text \<open>The whole transfer: chunks are produced until the file is exhausted.\<close>

function FileSender_run :: "externals \<Rightarrow> SendProtocol \<Rightarrow> SendProtocol" where
  "FileSender_run X s =
     (if sp_fd s = [] then FileSender_resumeProducing X s
      else FileSender_run X (FileSender_resumeProducing X s))"
  by pat_completeness auto
termination
  by (relation "measure (\<lambda>(X, s). length (sp_fd s))")
     (auto simp: FileSender_resumeProducing_def CHUNK_SIZE_def Let_def)

declare FileSender_run.simps [simp del]

text \<open>Lines 203-211.\<close>

definition SendProtocol_process_ack ::
  "SendProtocol \<Rightarrow> pydict \<Rightarrow> (error + unit) \<times> SendProtocol" where
  "SendProtocol_process_ack s ack =
     (case sp_expected_hexhash s of
        None \<Rightarrow> (Inl (RuntimeError PrematureAck), s)
      | Some expected \<Rightarrow>
          (case ack ''ack'' of
             None \<Rightarrow> (Inl (KeyError ''ack''), s)
           | Some a \<Rightarrow>
               if a \<noteq> JStr ''ok'' then (Inl (RuntimeError (AckNotOk ack)), s)
               else
                 (case ack ''sha256'' of
                    None \<Rightarrow> (Inl (KeyError ''sha256''), s)
                  | Some h \<Rightarrow>
                      if h \<noteq> JStr expected then (Inl (RuntimeError (AckBadHash h expected)), s)
                      else
                        (case OneShotObserver_fire (sp_done_observer s) FiredOk of
                           Inl e \<Rightarrow> (Inl e, s)
                         | Inr obs \<Rightarrow> (Inr (), s\<lparr>sp_done_observer := obs\<rparr>)))))"

text \<open>Lines 186-201.\<close>

definition SendProtocol_dataReceived ::
  "externals \<Rightarrow> SendProtocol \<Rightarrow> bytes \<Rightarrow> (error + unit) \<times> SendProtocol" where
  "SendProtocol_dataReceived X s data =
     (if sp_done s then (Inl (RuntimeError DataAfterDone), s)
      else
        (let s1 = s\<lparr>sp_ack_buffer := sp_ack_buffer s @ data\<rparr> in
         case read_frame (sp_ack_buffer s1) of
           Inl e \<Rightarrow> (Inl e, s1)
         | Inr None \<Rightarrow> (Inr (), s1)
         | Inr (Some (ack_bytes, rest)) \<Rightarrow>
             (case bytes_to_dict X ack_bytes of
                Inl e \<Rightarrow> (Inl e, s1)
              | Inr ack \<Rightarrow>
                  SendProtocol_process_ack (s1\<lparr>sp_done := True, sp_disconnecting := True\<rparr>) ack)))"

text \<open>Successive deliveries to one sender, the results of the calls collected.\<close>

fun SendProtocol_dataReceived_all ::
  "externals \<Rightarrow> SendProtocol \<Rightarrow> bytes list \<Rightarrow> (error + unit) list \<times> SendProtocol" where
  "SendProtocol_dataReceived_all X s [] = ([], s)"
| "SendProtocol_dataReceived_all X s (d # ds) =
     (case SendProtocol_dataReceived X s d of
        (res, s1) \<Rightarrow>
          (case SendProtocol_dataReceived_all X s1 ds of (rs, s2) \<Rightarrow> (res # rs, s2)))"

text \<open>Lines 213-217.\<close>

definition SendProtocol_connectionLost ::
  "externals \<Rightarrow> SendProtocol \<Rightarrow> (error + unit) \<times> SendProtocol" where
  "SendProtocol_connectionLost X s =
     (if \<not> sp_done s then
        (case OneShotObserver_error (error_overrides X) (sp_done_observer s)
                (Failure ''premature close'') of
           Inl e \<Rightarrow> (Inl e, s)
         | Inr obs \<Rightarrow> (Inr (), s\<lparr>sp_done_observer := obs\<rparr>))
      else (Inr (), s))"

section \<open>ControlProtocol\<close>

record ControlProtocol =
  cp_buffer :: bytes
  cp_done :: "pydict option"
  cp_transport :: "bytes list"

definition ControlProtocol_init :: ControlProtocol where
  "ControlProtocol_init = \<lparr>cp_buffer = [], cp_done = None, cp_transport = []\<rparr>"

definition ControlProtocol_send ::
  "externals \<Rightarrow> ControlProtocol \<Rightarrow> pydict \<Rightarrow> (error + unit) \<times> ControlProtocol" where
  "ControlProtocol_send X s msg =
     (let msg_bytes = dict_to_bytes X msg in
      case to_be8 (int (length msg_bytes)) of
        Inl e \<Rightarrow> (Inl e, s)
      | Inr pre \<Rightarrow> (Inr (), s\<lparr>cp_transport := cp_transport s @ [pre, msg_bytes]\<rparr>))"

definition ControlProtocol_dataReceived ::
  "externals \<Rightarrow> ControlProtocol \<Rightarrow> bytes \<Rightarrow> (error + unit) \<times> ControlProtocol" where
  "ControlProtocol_dataReceived X s data =
     (let s1 = s\<lparr>cp_buffer := cp_buffer s @ data\<rparr> in
      case read_frame (cp_buffer s1) of
        Inl e \<Rightarrow> (Inl e, s1)
      | Inr None \<Rightarrow> (Inr (), s1)
      | Inr (Some (msg_bytes, rest)) \<Rightarrow>
          (case bytes_to_dict X msg_bytes of
             Inl e \<Rightarrow> (Inl e, s1)
           | Inr msg \<Rightarrow>
               (case OneShotObserver_fire (cp_done s1) msg of
                  Inl e \<Rightarrow> (Inl e, s1)
                | Inr obs \<Rightarrow> (Inr (), s1\<lparr>cp_done := obs\<rparr>))))"

text \<open>Successive deliveries on the control stream, the results of the calls collected.\<close>

fun ControlProtocol_dataReceived_all ::
  "externals \<Rightarrow> ControlProtocol \<Rightarrow> bytes list \<Rightarrow> (error + unit) list \<times> ControlProtocol" where
  "ControlProtocol_dataReceived_all X s [] = ([], s)"
| "ControlProtocol_dataReceived_all X s (d # ds) =
     (case ControlProtocol_dataReceived X s d of
        (res, s1) \<Rightarrow>
          (case ControlProtocol_dataReceived_all X s1 ds of (rs, s2) \<Rightarrow> (res # rs, s2)))"

section \<open>The sending loop of open\<close>

text \<open>
  Lines 276-291, the \<open>tx\<close> branch of the generator \<open>open\<close>. A source file is its base
  name, whether it is a regular file, and its content. The loop is cooperative: at
  \<open>yield sp.when_done()\<close> it is suspended until the observer of that \<open>SendProtocol\<close>
  fires, and a failure is raised there as an exception, which ends the generator.
  \<open>outcome i\<close> is what the observer of the i-th protocol fires with, \<open>None\<close> if it
  never fires. The result is the trace of what the loop does, in order.
\<close>

record file_path =
  fp_basename :: string
  fp_isfile :: bool
  fp_content :: bytes

datatype event =
    Connect nat SendProtocol
  | SendDone nat
  | ControlSend pydict
  | Raised error
  | RaisedFailure string

definition file_header :: "file_path \<Rightarrow> pydict" where
  "file_header fp =
     [''type'' \<mapsto> JStr ''file'',
      ''size'' \<mapsto> JInt (int (length (fp_content fp))),
      ''name'' \<mapsto> JStr (fp_basename fp)]"

fun open_tx :: "(nat \<Rightarrow> done_result option) \<Rightarrow> nat \<Rightarrow> file_path list \<Rightarrow> event list" where
  "open_tx outcome i [] = [ControlSend [''done'' \<mapsto> JStr ''done'']]"
| "open_tx outcome i (fp # fps) =
     (if \<not> fp_isfile fp then [Raised AssertionError]
      else
        Connect i (SendProtocol_init (fp_content fp) (file_header fp) (int (length (fp_content fp))))
        # (case outcome i of
             None \<Rightarrow> []
           | Some (Failure f) \<Rightarrow> [RaisedFailure f]
           | Some FiredOk \<Rightarrow> SendDone i # open_tx outcome (Suc i) fps))"

section \<open>Concrete inputs\<close>

text \<open>
  The inputs at which the theorems below are instantiated and the code is run. The
  header of the specification's end-to-end scenario, its JSON text as bytes, and
  stand-ins for the imported functions: a codec that knows a few messages, a
  digest that spells out the bytes it was fed, and a downloads directory that
  accepts every name.
\<close>

definition example_header :: pydict where
  "example_header = [''type'' \<mapsto> JStr ''file'', ''size'' \<mapsto> JInt 3, ''name'' \<mapsto> JStr ''a.bin'']"

definition empty_file_header :: pydict where
  "empty_file_header = [''type'' \<mapsto> JStr ''file'', ''size'' \<mapsto> JInt 0, ''name'' \<mapsto> JStr ''e.bin'']"

definition example_header_bytes :: bytes where
  "example_header_bytes =
     [123, 34, 116, 121, 112, 101, 34, 58, 32, 34, 102, 105, 108, 101, 34, 44, 32, 34,
      115, 105, 122, 101, 34, 58, 32, 51, 44, 32, 34, 110, 97, 109, 101, 34, 58, 32, 34,
      97, 46, 98, 105, 110, 34, 125]"

definition tarball_header :: pydict where
  "tarball_header = [''type'' \<mapsto> JStr ''tarball'', ''size'' \<mapsto> JInt 3, ''name'' \<mapsto> JStr ''a.tar'']"

definition ok_ack :: pydict where
  "ok_ack = [''ack'' \<mapsto> JStr ''ok'', ''sha256'' \<mapsto> JStr ''1.2.3.'']"

definition refused_ack :: pydict where
  "refused_ack = [''ack'' \<mapsto> JStr ''no'', ''sha256'' \<mapsto> JStr ''1.2.3.'']"

definition wrong_hash_ack :: pydict where
  "wrong_hash_ack = [''ack'' \<mapsto> JStr ''ok'', ''sha256'' \<mapsto> JStr ''0.'']"

definition demo_dict_to_bytes :: "pydict \<Rightarrow> bytes" where
  "demo_dict_to_bytes m =
     (if m ''type'' = Some (JStr ''tarball'') then [123, 116, 125]
      else if m ''size'' = Some (JInt 3) then example_header_bytes
      else if m ''size'' = Some (JInt 0) then [123, 48, 125]
      else if m ''ack'' = Some (JStr ''ok'') then [123, 97, 125]
      else [123, 125])"

definition demo_bytes_to_dict :: "bytes \<Rightarrow> error + pydict" where
  "demo_bytes_to_dict b =
     (if b = example_header_bytes then Inr example_header
      else if b = [123, 48, 125] then Inr empty_file_header
      else if b = [123, 116, 125] then Inr tarball_header
      else if b = [123, 97, 125] then Inr ok_ack
      else if b = [123, 110, 125] then Inr refused_ack
      else if b = [123, 98, 125] then Inr wrong_hash_ack
      else if b = [123, 125] then Inr Map.empty
      else Inl DecodeError)"

definition demo_hexdigest :: "bytes \<Rightarrow> string" where
  "demo_hexdigest b = concat (map (\<lambda>x. show_nat (unat x) @ ''.'') b)"

definition demo_externals :: externals where
  "demo_externals =
     \<lparr>dict_to_bytes = demo_dict_to_bytes, bytes_to_dict = demo_bytes_to_dict,
      sha256_hexdigest = demo_hexdigest, child = Inr, error_overrides = True\<rparr>"

definition negative_size_header :: pydict where
  "negative_size_header =
     [''type'' \<mapsto> JStr ''file'', ''size'' \<mapsto> JInt (- 1), ''name'' \<mapsto> JStr ''a.bin'']"

definition nameless_header :: pydict where
  "nameless_header = [''type'' \<mapsto> JStr ''file'', ''size'' \<mapsto> JInt 3]"

definition two_files :: "file_path list" where
  "two_files =
     [\<lparr>fp_basename = ''a.bin'', fp_isfile = True, fp_content = [1, 2, 3]\<rparr>,
      \<lparr>fp_basename = ''e.bin'', fp_isfile = True, fp_content = []\<rparr>]"

definition all_ok :: "nat \<Rightarrow> done_result option" where
  "all_ok i = Some FiredOk"

definition first_fails :: "nat \<Rightarrow> done_result option" where
  "first_fails i = (if i = 0 then Some (Failure ''premature close'') else Some FiredOk)"

definition new_sink :: "string \<Rightarrow> sink" where
  "new_sink path = \<lparr>fd_path = path, fd_data = [], fd_closed = False\<rparr>"

definition new_receiver :: "string \<Rightarrow> int \<Rightarrow> Receiver" where
  "new_receiver path sz = \<lparr>fd = new_sink path, remaining = sz, hasher = [], progress = 0\<rparr>"

section \<open>The length codec\<close>

lemma length_be_bytes: "length (be_bytes n v) = n"
  by (induction n arbitrary: v) simp_all

lemma unpack_snoc:
  "struct_unpack_Q (bs @ [x]) = struct_unpack_Q bs * 256 + uint x"
  by (simp add: struct_unpack_Q_def)

lemma unpack_be_bytes: "struct_unpack_Q (be_bytes n v) = v mod 256 ^ n"
proof (induction n arbitrary: v)
  case 0
  show ?case by (simp add: struct_unpack_Q_def)
next
  case (Suc n)
  have low: "uint (word_of_int (v mod 256) :: byte) = v mod 256"
    by (simp add: uint_word_of_int take_bit_eq_mod)
  have "struct_unpack_Q (be_bytes (Suc n) v) = (v div 256) mod 256 ^ n * 256 + v mod 256"
    by (simp add: unpack_snoc Suc.IH low)
  also have "\<dots> = v mod 256 ^ Suc n"
    using zmod_zmult2_eq [of "256 ^ n" v 256] by simp
  finally show ?case .
qed

lemma unpack_bounds: "0 \<le> struct_unpack_Q bs \<and> struct_unpack_Q bs < 256 ^ length bs"
proof (induction bs rule: rev_induct)
  case Nil
  show ?case by (simp add: struct_unpack_Q_def)
next
  case (snoc x xs)
  have x: "0 \<le> uint x \<and> uint x < 256"
    using uint_bounded [of x] by simp
  from snoc x show ?case
    by (simp add: unpack_snoc)
qed

lemma be_bytes_unpack: "be_bytes (length bs) (struct_unpack_Q bs) = bs"
proof (induction bs rule: rev_induct)
  case Nil
  show ?case by simp
next
  case (snoc x xs)
  have x: "0 \<le> uint x \<and> uint x < 256"
    using uint_bounded [of x] by simp
  then have d: "(struct_unpack_Q xs * 256 + uint x) div 256 = struct_unpack_Q xs"
    by simp
  from x have m: "(struct_unpack_Q xs * 256 + uint x) mod 256 = uint x"
    by simp
  from x have w: "word_of_int (uint x mod 256) = x"
    by simp
  show ?case
    by (simp add: unpack_snoc d m w snoc.IH)
qed

lemma to_be8_258: "to_be8 258 = Inr [0, 0, 0, 0, 0, 0, 1, 2]"
  by (simp add: to_be8_def struct_pack_Q_def numeral_eq_Suc)

text \<open>
  C10. The 8-byte length codec is a partial bijection. Every integer \<open>v\<close> with
  \<open>0 \<le> v < 2^64\<close> is encoded to eight bytes that decode to \<open>v\<close>, and every other
  integer makes \<open>to_be8\<close> raise. Every string of eight bytes decodes to an integer of
  that range whose encoding is the string again; a byte string of any other length,
  and an object that is not a byte string, make \<open>from_be8\<close> raise.
\<close>

theorem be8_partial_bijection:
  "(0 \<le> v \<and> v < 2 ^ 64 \<longrightarrow>
      (\<exists>bs. to_be8 v = Inr bs \<and> length bs = 8 \<and> from_be8 (PyBytes bs) = Inr v))
   \<and> (\<not> (0 \<le> v \<and> v < 2 ^ 64) \<longrightarrow> to_be8 v = Inl ValueError)
   \<and> (length b = 8 \<longrightarrow>
      (\<exists>n. from_be8 (PyBytes b) = Inr n \<and> 0 \<le> n \<and> n < 2 ^ 64 \<and> to_be8 n = Inr b))
   \<and> (length c \<noteq> 8 \<longrightarrow> from_be8 (PyBytes c) = Inl ValueError)
   \<and> ((\<forall>bs. x \<noteq> PyBytes bs) \<longrightarrow> from_be8 x = Inl TypeError)"
proof (intro conjI impI)
  assume v: "0 \<le> v \<and> v < 2 ^ 64"
  then have "v mod 256 ^ 8 = v" by simp
  with v show "\<exists>bs. to_be8 v = Inr bs \<and> length bs = 8 \<and> from_be8 (PyBytes bs) = Inr v"
    by (simp add: to_be8_def from_be8_def struct_pack_Q_def length_be_bytes unpack_be_bytes)
next
  assume "\<not> (0 \<le> v \<and> v < 2 ^ 64)"
  then show "to_be8 v = Inl ValueError"
    by (simp add: to_be8_def)
next
  assume b: "length b = 8"
  from unpack_bounds [of b] b have r: "0 \<le> struct_unpack_Q b \<and> struct_unpack_Q b < 2 ^ 64"
    by simp
  from be_bytes_unpack [of b] b have "struct_pack_Q (struct_unpack_Q b) = b"
    by (simp add: struct_pack_Q_def)
  with b r show "\<exists>n. from_be8 (PyBytes b) = Inr n \<and> 0 \<le> n \<and> n < 2 ^ 64 \<and> to_be8 n = Inr b"
    by (simp add: from_be8_def to_be8_def)
next
  assume "length c \<noteq> 8"
  then show "from_be8 (PyBytes c) = Inl ValueError"
    by (simp add: from_be8_def)
next
  assume "\<forall>bs. x \<noteq> PyBytes bs"
  then show "from_be8 x = Inl TypeError"
    by (cases x) (simp_all add: from_be8_def)
qed

theorem be8_partial_bijection_witness:
  "to_be8 258 = Inr [0, 0, 0, 0, 0, 0, 1, 2]
   \<and> from_be8 (PyBytes [0, 0, 0, 0, 0, 0, 1, 2]) = Inr 258
   \<and> to_be8 (2 ^ 64) = Inl ValueError
   \<and> to_be8 (- 1) = Inl ValueError
   \<and> from_be8 (PyBytes [1, 2, 3]) = Inl ValueError
   \<and> from_be8 (PyStr ''abcdefgh'') = Inl TypeError"
  using be8_partial_bijection [of 258 "[0, 0, 0, 0, 0, 0, 1, 2]" "[1, 2, 3]" "PyStr ''abcdefgh''"]
    be8_partial_bijection [of "2 ^ 64" "[]" "[]" PyNone]
    be8_partial_bijection [of "- 1" "[]" "[]" PyNone]
  by (simp add: to_be8_258)

section \<open>Frames\<close>

lemma to_be8_Inr:
  assumes "to_be8 v = Inr pre"
  shows "0 \<le> v \<and> v < 2 ^ 64 \<and> length pre = 8 \<and> from_be8 (PyBytes pre) = Inr v"
proof -
  from assms have v: "0 \<le> v \<and> v < 2 ^ 64" and pre: "pre = struct_pack_Q v"
    by (auto simp: to_be8_def split: if_splits)
  from v have "v mod 256 ^ 8 = v" by simp
  with v pre show ?thesis
    by (simp add: from_be8_def struct_pack_Q_def length_be_bytes unpack_be_bytes)
qed

lemma to_be8_small:
  "to_be8 2 = Inr [0, 0, 0, 0, 0, 0, 0, 2]"
  "to_be8 3 = Inr [0, 0, 0, 0, 0, 0, 0, 3]"
  "to_be8 44 = Inr [0, 0, 0, 0, 0, 0, 0, 44]"
  by (simp_all add: to_be8_def struct_pack_Q_def numeral_eq_Suc)

text \<open>
  What the decoder returns on any buffer that is an initial part of the stream
  "length prefix, payload, whatever follows".
\<close>

lemma read_frame_prefix:
  assumes enc: "to_be8 (int (length p)) = Inr pre"
    and pfx: "prefix buf (pre @ p @ extra)"
  shows "read_frame buf =
           Inr (if length buf < 8 + length p then None
                else Some (p, drop (8 + length p) buf))"
proof (cases "length buf < 8")
  case True
  then show ?thesis by (simp add: read_frame_def)
next
  case False
  from to_be8_Inr [OF enc] have len: "length pre = 8"
    and dec: "from_be8 (PyBytes pre) = Inr (int (length p))" by simp_all
  from pfx obtain zs where eq: "pre @ p @ extra = buf @ zs"
    by (auto simp: prefix_def)
  from False len have "take 8 buf = take 8 (buf @ zs)" by simp
  also have "\<dots> = pre" using len by (simp add: eq [symmetric])
  finally have hd8: "take 8 buf = pre" .
  show ?thesis
  proof (cases "length buf < 8 + length p")
    case True
    with False show ?thesis
      by (simp add: read_frame_def hd8 dec)
  next
    case long: False
    have "take (length p) (drop 8 buf) = take (length p) (drop 8 (buf @ zs))"
      using long by simp
    also have "\<dots> = p" using len by (simp add: eq [symmetric])
    finally have body: "take (length p) (drop 8 buf) = p" .
    from False long show ?thesis
      by (simp add: read_frame_def hd8 dec body)
  qed
qed

lemma read_frame_short:
  assumes "to_be8 (int (length p)) = Inr pre"
    and "prefix buf (pre @ p @ extra)" and "length buf < 8 + length p"
  shows "read_frame buf = Inr None"
  using read_frame_prefix [OF assms(1,2)] assms(3) by simp

lemma read_frame_whole:
  assumes "to_be8 (int (length p)) = Inr pre"
  shows "read_frame (pre @ p @ extra) = Inr (Some (p, extra))"
proof -
  have "prefix (pre @ p @ extra) (pre @ p @ extra)" by simp
  from read_frame_prefix [OF assms this] to_be8_Inr [OF assms] show ?thesis by simp
qed

lemma demo_decodes_acks:
  "bytes_to_dict demo_externals [123, 97, 125] = Inr ok_ack"
  "bytes_to_dict demo_externals [123, 110, 125] = Inr refused_ack"
  "bytes_to_dict demo_externals [123, 98, 125] = Inr wrong_hash_ack"
  "bytes_to_dict demo_externals [123, 125] = Inr Map.empty"
  by (simp_all add: demo_externals_def demo_bytes_to_dict_def example_header_bytes_def)

lemma ack_frames:
  "read_frame ([] @ [0, 0, 0, 0, 0, 0, 0, 3, 123, 97, 125]) = Inr (Some ([123, 97, 125], []))"
  "read_frame ([] @ [0, 0, 0, 0, 0, 0, 0, 3, 123, 110, 125]) = Inr (Some ([123, 110, 125], []))"
  "read_frame ([] @ [0, 0, 0, 0, 0, 0, 0, 3, 123, 98, 125]) = Inr (Some ([123, 98, 125], []))"
  "read_frame ([] @ [0, 0, 0, 0, 0, 0, 0, 2, 123, 125]) = Inr (Some ([123, 125], []))"
  by (simp_all add: read_frame_def from_be8_def struct_unpack_Q_def)

lemma prefix_of_delivered:
  assumes "prefix (buf @ d @ rest) stream" and "length (buf @ d @ rest) < n"
  shows "prefix (buf @ d) stream \<and> length (buf @ d) < n"
proof -
  have "prefix (buf @ d) ((buf @ d) @ rest)" by (rule prefixI) simp
  with assms(1) have "prefix (buf @ d) stream"
    by (metis append.assoc prefix_order.trans)
  with assms(2) show ?thesis by simp
qed

lemma ControlProtocol_waits:
  assumes "to_be8 (int (length p)) = Inr pre"
    and "prefix (cp_buffer c @ concat ds) (pre @ p @ extra)"
    and "length (cp_buffer c @ concat ds) < 8 + length p"
  shows "ControlProtocol_dataReceived_all X c ds =
           (replicate (length ds) (Inr ()), c\<lparr>cp_buffer := cp_buffer c @ concat ds\<rparr>)"
  using assms(2,3)
proof (induction ds arbitrary: c)
  case Nil
  then show ?case by simp
next
  case (Cons d ds)
  let ?c1 = "c\<lparr>cp_buffer := cp_buffer c @ d\<rparr>"
  from Cons.prems have now: "prefix (cp_buffer c @ d) (pre @ p @ extra)"
    "length (cp_buffer c @ d) < 8 + length p"
    using prefix_of_delivered [of "cp_buffer c" d "concat ds" "pre @ p @ extra" "8 + length p"]
    by simp_all
  from read_frame_short [OF assms(1) now]
  have step: "ControlProtocol_dataReceived X c d = (Inr (), ?c1)"
    by (simp add: ControlProtocol_dataReceived_def)
  from Cons.prems have "prefix (cp_buffer ?c1 @ concat ds) (pre @ p @ extra)"
    "length (cp_buffer ?c1 @ concat ds) < 8 + length p"
    by simp_all
  from Cons.IH [OF this] step show ?case by simp
qed

lemma SendProtocol_waits:
  assumes "to_be8 (int (length p)) = Inr pre"
    and "\<not> sp_done s"
    and "prefix (sp_ack_buffer s @ concat ds) (pre @ p @ extra)"
    and "length (sp_ack_buffer s @ concat ds) < 8 + length p"
  shows "SendProtocol_dataReceived_all X s ds =
           (replicate (length ds) (Inr ()), s\<lparr>sp_ack_buffer := sp_ack_buffer s @ concat ds\<rparr>)"
  using assms(2,3,4)
proof (induction ds arbitrary: s)
  case Nil
  then show ?case by simp
next
  case (Cons d ds)
  let ?s1 = "s\<lparr>sp_ack_buffer := sp_ack_buffer s @ d\<rparr>"
  from Cons.prems have now: "prefix (sp_ack_buffer s @ d) (pre @ p @ extra)"
    "length (sp_ack_buffer s @ d) < 8 + length p"
    using prefix_of_delivered [of "sp_ack_buffer s" d "concat ds" "pre @ p @ extra" "8 + length p"]
    by simp_all
  from read_frame_short [OF assms(1) now] Cons.prems(1)
  have step: "SendProtocol_dataReceived X s d = (Inr (), ?s1)"
    by (simp add: SendProtocol_dataReceived_def)
  from Cons.prems have "\<not> sp_done ?s1" "prefix (sp_ack_buffer ?s1 @ concat ds) (pre @ p @ extra)"
    "length (sp_ack_buffer ?s1 @ concat ds) < 8 + length p"
    by simp_all
  from Cons.IH [OF this] step show ?case by simp
qed

lemma ReceiveProtocol_waits:
  assumes "to_be8 (int (length p)) = Inr pre"
    and "in_header r"
    and "prefix (header_buffer r @ concat ds) (pre @ p @ extra)"
    and "length (header_buffer r @ concat ds) < 8 + length p"
  shows "ReceiveProtocol_dataReceived_all X r ds =
           Some (replicate (length ds) (Inr ()), r\<lparr>header_buffer := header_buffer r @ concat ds\<rparr>)"
  using assms(2,3,4)
proof (induction ds arbitrary: r)
  case Nil
  then show ?case by simp
next
  case (Cons d ds)
  let ?r1 = "r\<lparr>header_buffer := header_buffer r @ d\<rparr>"
  from Cons.prems have now: "prefix (header_buffer r @ d) (pre @ p @ extra)"
    "length (header_buffer r @ d) < 8 + length p"
    using prefix_of_delivered [of "header_buffer r" d "concat ds" "pre @ p @ extra" "8 + length p"]
    by simp_all
  from read_frame_short [OF assms(1) now] Cons.prems(1)
  have step: "ReceiveProtocol_dataReceived X r d = Some (Inr (), ?r1)"
    by (simp add: ReceiveProtocol_dataReceived_def)
  from Cons.prems have "in_header ?r1" "prefix (header_buffer ?r1 @ concat ds) (pre @ p @ extra)"
    "length (header_buffer ?r1 @ concat ds) < 8 + length p"
    by simp_all
  from Cons.IH [OF this] step show ?case by simp
qed

text \<open>
  C6, as amended. A payload \<open>p\<close> of fewer than \<open>2^64\<close> bytes is framed as the code
  frames it (the 8-byte big-endian length \<open>pre\<close>, then \<open>p\<close>), any bytes \<open>extra\<close> follow,
  and the stream arrives split in any way: deliveries \<open>ds\<close> that together hold fewer
  than \<open>8 + length p\<close> bytes, then the delivery \<open>d\<close> that completes the frame. Each
  of the three read handlers, starting with an empty buffer, returns from every
  delivery of \<open>ds\<close> having done nothing but append it to its buffer. On \<open>d\<close> it hands
  exactly \<open>p\<close> to \<open>bytes_to_dict\<close> and goes on with the decoded map. \<open>ReceiveProtocol\<close>
  passes the bytes past the frame, \<open>extra\<close>, to the receiver in that same call and
  empties its buffer. \<open>ControlProtocol\<close> and \<open>SendProtocol\<close> keep the whole buffer,
  frame included, and set no remainder apart.
\<close>

theorem frame_decoding_in_handlers:
  assumes enc: "to_be8 (int (length p)) = Inr pre"
    and split: "concat ds @ d = pre @ p @ extra"
    and short: "length (concat ds) < 8 + length p"
  shows "(cp_buffer c = [] \<longrightarrow>
      ControlProtocol_dataReceived_all X c ds =
        (replicate (length ds) (Inr ()), c\<lparr>cp_buffer := concat ds\<rparr>)
      \<and> ControlProtocol_dataReceived X (c\<lparr>cp_buffer := concat ds\<rparr>) d =
        (case bytes_to_dict X p of
           Inl e \<Rightarrow> (Inl e, c\<lparr>cp_buffer := pre @ p @ extra\<rparr>)
         | Inr msg \<Rightarrow>
             (case OneShotObserver_fire (cp_done c) msg of
                Inl e \<Rightarrow> (Inl e, c\<lparr>cp_buffer := pre @ p @ extra\<rparr>)
              | Inr obs \<Rightarrow> (Inr (), c\<lparr>cp_buffer := pre @ p @ extra, cp_done := obs\<rparr>))))
    \<and> (sp_ack_buffer s = [] \<and> \<not> sp_done s \<longrightarrow>
      SendProtocol_dataReceived_all X s ds =
        (replicate (length ds) (Inr ()), s\<lparr>sp_ack_buffer := concat ds\<rparr>)
      \<and> SendProtocol_dataReceived X (s\<lparr>sp_ack_buffer := concat ds\<rparr>) d =
        (case bytes_to_dict X p of
           Inl e \<Rightarrow> (Inl e, s\<lparr>sp_ack_buffer := pre @ p @ extra\<rparr>)
         | Inr ack \<Rightarrow>
             SendProtocol_process_ack
               (s\<lparr>sp_ack_buffer := pre @ p @ extra, sp_done := True, sp_disconnecting := True\<rparr>)
               ack))
    \<and> (header_buffer r = [] \<and> in_header r \<longrightarrow>
      ReceiveProtocol_dataReceived_all X r ds =
        Some (replicate (length ds) (Inr ()), r\<lparr>header_buffer := concat ds\<rparr>)
      \<and> ReceiveProtocol_dataReceived X (r\<lparr>header_buffer := concat ds\<rparr>) d =
        (case bytes_to_dict X p of
           Inl e \<Rightarrow> Some (Inl e, r\<lparr>header_buffer := pre @ p @ extra\<rparr>)
         | Inr header \<Rightarrow>
             (case incoming_file X (rp_downloads r) header of
                None \<Rightarrow> None
              | Some (Inl e) \<Rightarrow> Some (Inl e, r\<lparr>header_buffer := pre @ p @ extra\<rparr>)
              | Some (Inr (rcv, listing)) \<Rightarrow>
                  Some (ReceiveProtocol_write X
                    (r\<lparr>receiver := Some rcv, rp_downloads := listing, in_header := False,
                       header_buffer := []\<rparr>) extra))))"
proof -
  have pfx: "prefix (concat ds) (pre @ p @ extra)"
    by (metis split prefixI)
  have whole: "read_frame (concat ds @ d) = Inr (Some (p, extra))"
    by (simp add: split read_frame_whole [OF enc])
  have control: "cp_buffer c = [] \<longrightarrow>
      ControlProtocol_dataReceived_all X c ds =
        (replicate (length ds) (Inr ()), c\<lparr>cp_buffer := concat ds\<rparr>)
      \<and> ControlProtocol_dataReceived X (c\<lparr>cp_buffer := concat ds\<rparr>) d =
        (case bytes_to_dict X p of
           Inl e \<Rightarrow> (Inl e, c\<lparr>cp_buffer := pre @ p @ extra\<rparr>)
         | Inr msg \<Rightarrow>
             (case OneShotObserver_fire (cp_done c) msg of
                Inl e \<Rightarrow> (Inl e, c\<lparr>cp_buffer := pre @ p @ extra\<rparr>)
              | Inr obs \<Rightarrow> (Inr (), c\<lparr>cp_buffer := pre @ p @ extra, cp_done := obs\<rparr>)))"
  proof
    assume e: "cp_buffer c = []"
    with pfx short have "prefix (cp_buffer c @ concat ds) (pre @ p @ extra)"
      "length (cp_buffer c @ concat ds) < 8 + length p" by simp_all
    from ControlProtocol_waits [OF enc this, of X] e
    have run: "ControlProtocol_dataReceived_all X c ds =
        (replicate (length ds) (Inr ()), c\<lparr>cp_buffer := concat ds\<rparr>)" by simp
    have last: "ControlProtocol_dataReceived X (c\<lparr>cp_buffer := concat ds\<rparr>) d =
        (case bytes_to_dict X p of
           Inl e \<Rightarrow> (Inl e, c\<lparr>cp_buffer := pre @ p @ extra\<rparr>)
         | Inr msg \<Rightarrow>
             (case OneShotObserver_fire (cp_done c) msg of
                Inl e \<Rightarrow> (Inl e, c\<lparr>cp_buffer := pre @ p @ extra\<rparr>)
              | Inr obs \<Rightarrow> (Inr (), c\<lparr>cp_buffer := pre @ p @ extra, cp_done := obs\<rparr>)))"
      using whole
      by (simp add: ControlProtocol_dataReceived_def split [symmetric] split: sum.splits)
    from run last show "ControlProtocol_dataReceived_all X c ds =
        (replicate (length ds) (Inr ()), c\<lparr>cp_buffer := concat ds\<rparr>)
      \<and> ControlProtocol_dataReceived X (c\<lparr>cp_buffer := concat ds\<rparr>) d =
        (case bytes_to_dict X p of
           Inl e \<Rightarrow> (Inl e, c\<lparr>cp_buffer := pre @ p @ extra\<rparr>)
         | Inr msg \<Rightarrow>
             (case OneShotObserver_fire (cp_done c) msg of
                Inl e \<Rightarrow> (Inl e, c\<lparr>cp_buffer := pre @ p @ extra\<rparr>)
              | Inr obs \<Rightarrow> (Inr (), c\<lparr>cp_buffer := pre @ p @ extra, cp_done := obs\<rparr>)))"
      by blast
  qed
  have sender: "sp_ack_buffer s = [] \<and> \<not> sp_done s \<longrightarrow>
      SendProtocol_dataReceived_all X s ds =
        (replicate (length ds) (Inr ()), s\<lparr>sp_ack_buffer := concat ds\<rparr>)
      \<and> SendProtocol_dataReceived X (s\<lparr>sp_ack_buffer := concat ds\<rparr>) d =
        (case bytes_to_dict X p of
           Inl e \<Rightarrow> (Inl e, s\<lparr>sp_ack_buffer := pre @ p @ extra\<rparr>)
         | Inr ack \<Rightarrow>
             SendProtocol_process_ack
               (s\<lparr>sp_ack_buffer := pre @ p @ extra, sp_done := True, sp_disconnecting := True\<rparr>)
               ack)"
  proof
    assume e: "sp_ack_buffer s = [] \<and> \<not> sp_done s"
    with pfx short have "\<not> sp_done s" "prefix (sp_ack_buffer s @ concat ds) (pre @ p @ extra)"
      "length (sp_ack_buffer s @ concat ds) < 8 + length p" by simp_all
    from SendProtocol_waits [OF enc this, of X] e
    have run: "SendProtocol_dataReceived_all X s ds =
        (replicate (length ds) (Inr ()), s\<lparr>sp_ack_buffer := concat ds\<rparr>)" by simp
    have last: "SendProtocol_dataReceived X (s\<lparr>sp_ack_buffer := concat ds\<rparr>) d =
        (case bytes_to_dict X p of
           Inl e \<Rightarrow> (Inl e, s\<lparr>sp_ack_buffer := pre @ p @ extra\<rparr>)
         | Inr ack \<Rightarrow>
             SendProtocol_process_ack
               (s\<lparr>sp_ack_buffer := pre @ p @ extra, sp_done := True, sp_disconnecting := True\<rparr>)
               ack)"
      using whole e
      by (simp add: SendProtocol_dataReceived_def split [symmetric] split: sum.splits)
    from run last show "SendProtocol_dataReceived_all X s ds =
        (replicate (length ds) (Inr ()), s\<lparr>sp_ack_buffer := concat ds\<rparr>)
      \<and> SendProtocol_dataReceived X (s\<lparr>sp_ack_buffer := concat ds\<rparr>) d =
        (case bytes_to_dict X p of
           Inl e \<Rightarrow> (Inl e, s\<lparr>sp_ack_buffer := pre @ p @ extra\<rparr>)
         | Inr ack \<Rightarrow>
             SendProtocol_process_ack
               (s\<lparr>sp_ack_buffer := pre @ p @ extra, sp_done := True, sp_disconnecting := True\<rparr>)
               ack)"
      by blast
  qed
  have rcvr: "header_buffer r = [] \<and> in_header r \<longrightarrow>
      ReceiveProtocol_dataReceived_all X r ds =
        Some (replicate (length ds) (Inr ()), r\<lparr>header_buffer := concat ds\<rparr>)
      \<and> ReceiveProtocol_dataReceived X (r\<lparr>header_buffer := concat ds\<rparr>) d =
        (case bytes_to_dict X p of
           Inl e \<Rightarrow> Some (Inl e, r\<lparr>header_buffer := pre @ p @ extra\<rparr>)
         | Inr header \<Rightarrow>
             (case incoming_file X (rp_downloads r) header of
                None \<Rightarrow> None
              | Some (Inl e) \<Rightarrow> Some (Inl e, r\<lparr>header_buffer := pre @ p @ extra\<rparr>)
              | Some (Inr (rcv, listing)) \<Rightarrow>
                  Some (ReceiveProtocol_write X
                    (r\<lparr>receiver := Some rcv, rp_downloads := listing, in_header := False,
                       header_buffer := []\<rparr>) extra)))"
  proof
    assume e: "header_buffer r = [] \<and> in_header r"
    with pfx short have "in_header r" "prefix (header_buffer r @ concat ds) (pre @ p @ extra)"
      "length (header_buffer r @ concat ds) < 8 + length p" by simp_all
    from ReceiveProtocol_waits [OF enc this, of X] e
    have run: "ReceiveProtocol_dataReceived_all X r ds =
        Some (replicate (length ds) (Inr ()), r\<lparr>header_buffer := concat ds\<rparr>)" by simp
    have last: "ReceiveProtocol_dataReceived X (r\<lparr>header_buffer := concat ds\<rparr>) d =
        (case bytes_to_dict X p of
           Inl e \<Rightarrow> Some (Inl e, r\<lparr>header_buffer := pre @ p @ extra\<rparr>)
         | Inr header \<Rightarrow>
             (case incoming_file X (rp_downloads r) header of
                None \<Rightarrow> None
              | Some (Inl e) \<Rightarrow> Some (Inl e, r\<lparr>header_buffer := pre @ p @ extra\<rparr>)
              | Some (Inr (rcv, listing)) \<Rightarrow>
                  Some (ReceiveProtocol_write X
                    (r\<lparr>receiver := Some rcv, rp_downloads := listing, in_header := False,
                       header_buffer := []\<rparr>) extra)))"
      using whole e
      by (simp add: ReceiveProtocol_dataReceived_def split [symmetric]
          split: sum.splits option.splits prod.splits)
    from run last show "ReceiveProtocol_dataReceived_all X r ds =
        Some (replicate (length ds) (Inr ()), r\<lparr>header_buffer := concat ds\<rparr>)
      \<and> ReceiveProtocol_dataReceived X (r\<lparr>header_buffer := concat ds\<rparr>) d =
        (case bytes_to_dict X p of
           Inl e \<Rightarrow> Some (Inl e, r\<lparr>header_buffer := pre @ p @ extra\<rparr>)
         | Inr header \<Rightarrow>
             (case incoming_file X (rp_downloads r) header of
                None \<Rightarrow> None
              | Some (Inl e) \<Rightarrow> Some (Inl e, r\<lparr>header_buffer := pre @ p @ extra\<rparr>)
              | Some (Inr (rcv, listing)) \<Rightarrow>
                  Some (ReceiveProtocol_write X
                    (r\<lparr>receiver := Some rcv, rp_downloads := listing, in_header := False,
                       header_buffer := []\<rparr>) extra)))"
      by blast
  qed
  from control sender rcvr show ?thesis by blast
qed

lemma demo_header_codec:
  "bytes_to_dict demo_externals [123, 48, 125] = Inr empty_file_header"
  "dict_to_bytes demo_externals
     [''ack'' \<mapsto> JStr ''ok'', ''sha256'' \<mapsto> JStr (sha256_hexdigest demo_externals [])]
   = [123, 97, 125]"
  by (simp_all add: demo_externals_def demo_bytes_to_dict_def demo_dict_to_bytes_def
      example_header_bytes_def)

lemma empty_file_opened:
  "incoming_file demo_externals [] empty_file_header =
     Some (Inr (new_receiver ''e.bin'' 0, [''e.bin'']))"
  by (simp add: incoming_file_def incoming_file_checks_def incoming_file_open_def
      empty_file_header_def demo_externals_def find_target.simps new_receiver_def new_sink_def)

lemma empty_file_acked:
  "ReceiveProtocol_write demo_externals
     ((ReceiveProtocol_init [])\<lparr>receiver := Some (new_receiver ''e.bin'' 0),
        rp_downloads := [''e.bin''], in_header := False, header_buffer := []\<rparr>) [] =
   (Inr (), (ReceiveProtocol_init [])
      \<lparr>in_header := False,
       receiver := Some \<lparr>fd = \<lparr>fd_path = ''e.bin'', fd_data = [], fd_closed = True\<rparr>,
                          remaining = 0, hasher = [], progress = 0\<rparr>,
       rp_downloads := [''e.bin''],
       rp_transport := [[0, 0, 0, 0, 0, 0, 0, 3], [123, 97, 125]]\<rparr>)"
  by (simp add: ReceiveProtocol_write_def Receiver_write_def fd_write_def Receiver_finish_def
      fd_close_def new_receiver_def new_sink_def ReceiveProtocol_init_def demo_header_codec
      to_be8_small)

theorem frame_decoding_in_handlers_witness:
  "ControlProtocol_dataReceived_all demo_externals ControlProtocol_init
       [[0, 0, 0], [0, 0, 0, 0, 3, 123]] =
     ([Inr (), Inr ()], ControlProtocol_init\<lparr>cp_buffer := [0, 0, 0, 0, 0, 0, 0, 3, 123]\<rparr>)
   \<and> ControlProtocol_dataReceived demo_externals
       (ControlProtocol_init\<lparr>cp_buffer := [0, 0, 0, 0, 0, 0, 0, 3, 123]\<rparr>) [97, 125, 9] =
     (Inr (), ControlProtocol_init
        \<lparr>cp_buffer := [0, 0, 0, 0, 0, 0, 0, 3, 123, 97, 125, 9], cp_done := Some ok_ack\<rparr>)
   \<and> SendProtocol_dataReceived_all demo_externals
       ((SendProtocol_init [] example_header 3)\<lparr>sp_expected_hexhash := Some ''1.2.3.''\<rparr>)
       [[0, 0, 0], [0, 0, 0, 0, 3, 123]] =
     ([Inr (), Inr ()],
      (SendProtocol_init [] example_header 3)
        \<lparr>sp_expected_hexhash := Some ''1.2.3.'', sp_ack_buffer := [0, 0, 0, 0, 0, 0, 0, 3, 123]\<rparr>)
   \<and> SendProtocol_dataReceived demo_externals
       ((SendProtocol_init [] example_header 3)
          \<lparr>sp_expected_hexhash := Some ''1.2.3.'', sp_ack_buffer := [0, 0, 0, 0, 0, 0, 0, 3, 123]\<rparr>)
       [97, 125, 9] =
     (Inr (),
      (SendProtocol_init [] example_header 3)
        \<lparr>sp_expected_hexhash := Some ''1.2.3.'',
         sp_ack_buffer := [0, 0, 0, 0, 0, 0, 0, 3, 123, 97, 125, 9], sp_done := True,
         sp_disconnecting := True, sp_done_observer := Some FiredOk\<rparr>)
   \<and> ReceiveProtocol_dataReceived_all demo_externals (ReceiveProtocol_init []) [[0, 0, 0, 0, 0]] =
     Some ([Inr ()], (ReceiveProtocol_init [])\<lparr>header_buffer := [0, 0, 0, 0, 0]\<rparr>)
   \<and> ReceiveProtocol_dataReceived demo_externals
       ((ReceiveProtocol_init [])\<lparr>header_buffer := [0, 0, 0, 0, 0]\<rparr>) [0, 0, 3, 123, 48, 125] =
     Some (Inr (), (ReceiveProtocol_init [])
        \<lparr>in_header := False,
         receiver := Some \<lparr>fd = \<lparr>fd_path = ''e.bin'', fd_data = [], fd_closed = True\<rparr>,
                            remaining = 0, hasher = [], progress = 0\<rparr>,
         rp_downloads := [''e.bin''],
         rp_transport := [[0, 0, 0, 0, 0, 0, 0, 3], [123, 97, 125]]\<rparr>)"
proof -
  let ?s1 = "(SendProtocol_init [] example_header 3)\<lparr>sp_expected_hexhash := Some ''1.2.3.''\<rparr>"
  let ?r0 = "ReceiveProtocol_init []"
  have st: "cp_buffer ControlProtocol_init = []" "cp_done ControlProtocol_init = None"
    "sp_ack_buffer ?s1 = []" "\<not> sp_done ?s1" "header_buffer ?r0 = []" "in_header ?r0"
    "rp_downloads ?r0 = []"
    by (simp_all add: ControlProtocol_init_def SendProtocol_init_def ReceiveProtocol_init_def)
  have ack: "SendProtocol_process_ack
      (?s1\<lparr>sp_ack_buffer := [0, 0, 0, 0, 0, 0, 0, 3, 123, 97, 125, 9], sp_done := True,
           sp_disconnecting := True\<rparr>) ok_ack =
     (Inr (), ?s1\<lparr>sp_ack_buffer := [0, 0, 0, 0, 0, 0, 0, 3, 123, 97, 125, 9], sp_done := True,
           sp_disconnecting := True, sp_done_observer := Some FiredOk\<rparr>)"
    by (simp add: SendProtocol_process_ack_def SendProtocol_init_def ok_ack_def
        OneShotObserver_fire_def)
  note a = frame_decoding_in_handlers [of "[123, 97, 125]" "[0, 0, 0, 0, 0, 0, 0, 3]"
      "[[0, 0, 0], [0, 0, 0, 0, 3, 123]]" "[97, 125, 9]" "[9]"
      ControlProtocol_init demo_externals ?s1 ?r0]
  note b = frame_decoding_in_handlers [of "[123, 48, 125]" "[0, 0, 0, 0, 0, 0, 0, 3]"
      "[[0, 0, 0, 0, 0]]" "[0, 0, 3, 123, 48, 125]" "[]"
      ControlProtocol_init demo_externals ?s1 ?r0]
  from a b show ?thesis
    using st ack
    by (simp add: to_be8_small demo_decodes_acks demo_header_codec OneShotObserver_fire_def
        empty_file_opened empty_file_acked)
qed

text \<open>
  C6 as stated fails for the control and the sender handlers. A frame followed by
  one more byte arrives in one delivery. \<open>ControlProtocol.dataReceived\<close> decodes the
  frame and keeps the whole buffer, frame included: what the next call decodes from
  it, with whatever arrives, is the same frame again, not what followed it.
  \<open>SendProtocol.dataReceived\<close> keeps the whole buffer too and refuses every later
  delivery.
\<close>

theorem frame_remainder_counterexample:
  "ControlProtocol_dataReceived demo_externals ControlProtocol_init
       [0, 0, 0, 0, 0, 0, 0, 3, 123, 97, 125, 9] =
     (Inr (), ControlProtocol_init
        \<lparr>cp_buffer := [0, 0, 0, 0, 0, 0, 0, 3, 123, 97, 125, 9], cp_done := Some ok_ack\<rparr>)
   \<and> read_frame ([0, 0, 0, 0, 0, 0, 0, 3, 123, 97, 125, 9] @ [0, 0]) =
     Inr (Some ([123, 97, 125], [9, 0, 0]))
   \<and> SendProtocol_dataReceived_all demo_externals
       ((SendProtocol_init [] example_header 3)\<lparr>sp_expected_hexhash := Some ''1.2.3.''\<rparr>)
       [[0, 0, 0, 0, 0, 0, 0, 3, 123, 97, 125, 9], [0, 0]] =
     ([Inr (), Inl (RuntimeError DataAfterDone)],
      (SendProtocol_init [] example_header 3)
        \<lparr>sp_expected_hexhash := Some ''1.2.3.'',
         sp_ack_buffer := [0, 0, 0, 0, 0, 0, 0, 3, 123, 97, 125, 9], sp_done := True,
         sp_disconnecting := True, sp_done_observer := Some FiredOk\<rparr>)"
proof -
  have frame: "read_frame [0, 0, 0, 0, 0, 0, 0, 3, 123, 97, 125, 9] = Inr (Some ([123, 97, 125], [9]))"
    "read_frame ([0, 0, 0, 0, 0, 0, 0, 3, 123, 97, 125, 9] @ [0, 0]) =
       Inr (Some ([123, 97, 125], [9, 0, 0]))"
    by (simp_all add: read_frame_def from_be8_def struct_unpack_Q_def)
  from frame demo_decodes_acks(1) show ?thesis
    by (simp add: ControlProtocol_dataReceived_def ControlProtocol_init_def
        SendProtocol_dataReceived_def SendProtocol_process_ack_def SendProtocol_init_def
        OneShotObserver_fire_def ok_ack_def)
qed

section \<open>What the sender writes first\<close>

lemma header_bytes_length: "length example_header_bytes = 44"
  by (simp add: example_header_bytes_def)

lemma demo_digest_123: "demo_hexdigest [1, 2, 3] = ''1.2.3.''"
  by (simp add: demo_hexdigest_def show_nat.simps digit_def)

lemma demo_digest_1: "demo_hexdigest [1] = ''1.''"
  by (simp add: demo_hexdigest_def show_nat.simps digit_def)

lemma sender_run_example:
  "FileSender_run demo_externals
     (SendProtocol_connectionMade demo_externals (SendProtocol_init [1, 2, 3] example_header 3))
   = (SendProtocol_init [] example_header 3)
       \<lparr>sp_expected_hexhash := Some ''1.2.3.'', sp_hasher := [1, 2, 3],
        sp_transport := [example_header_bytes, [1, 2, 3]]\<rparr>"
  by (simp add: FileSender_run.simps SendProtocol_connectionMade_def SendProtocol_init_def
      FileSender_resumeProducing_def CHUNK_SIZE_def demo_externals_def demo_dict_to_bytes_def
      example_header_def Let_def demo_digest_123)

lemma receiver_waits_example:
  "ReceiveProtocol_dataReceived demo_externals (ReceiveProtocol_init [])
      (example_header_bytes @ [1, 2, 3])
   = Some (Inr (), (ReceiveProtocol_init [])\<lparr>header_buffer := example_header_bytes @ [1, 2, 3]\<rparr>)"
  by (simp add: ReceiveProtocol_dataReceived_def ReceiveProtocol_init_def read_frame_def
      from_be8_def struct_unpack_Q_def example_header_bytes_def)

text \<open>
  C1. The claim: the first bytes the sender writes on the transfer stream are a
  complete header frame, the 8-byte length and then the serialized header. The code
  run on the end-to-end scenario (header of \<open>a.bin\<close>, three payload bytes): the
  stream the sender produces is the serialized header followed at once by the
  payload. Its first eight bytes are the first eight bytes of the header text, not
  the length 44 of the header. The receiver reads them as a length of about
  \<open>8.9 * 10^18\<close> and, fed the whole stream, is still waiting for its header. The
  sibling writer \<open>ControlProtocol.send\<close>, given the same map, writes the length 44
  and then the text.
\<close>

theorem sender_header_has_no_length_prefix:
  "concat (sp_transport (FileSender_run demo_externals
      (SendProtocol_connectionMade demo_externals (SendProtocol_init [1, 2, 3] example_header 3))))
     = example_header_bytes @ [1, 2, 3]
   \<and> dict_to_bytes demo_externals example_header = example_header_bytes
   \<and> to_be8 (int (length example_header_bytes)) = Inr [0, 0, 0, 0, 0, 0, 0, 44]
   \<and> take 8 (example_header_bytes @ [1, 2, 3]) = [123, 34, 116, 121, 112, 101, 34, 58]
   \<and> from_be8 (PyBytes (take 8 (example_header_bytes @ [1, 2, 3]))) = Inr 8872782280798839354
   \<and> ReceiveProtocol_dataReceived demo_externals (ReceiveProtocol_init [])
        (example_header_bytes @ [1, 2, 3])
      = Some (Inr (), (ReceiveProtocol_init [])\<lparr>header_buffer := example_header_bytes @ [1, 2, 3]\<rparr>)
   \<and> ControlProtocol_send demo_externals ControlProtocol_init example_header
      = (Inr (), ControlProtocol_init
                   \<lparr>cp_transport := [[0, 0, 0, 0, 0, 0, 0, 44], example_header_bytes]\<rparr>)"
proof -
  have "dict_to_bytes demo_externals example_header = example_header_bytes"
    by (simp add: demo_externals_def demo_dict_to_bytes_def example_header_def)
  moreover from this have "ControlProtocol_send demo_externals ControlProtocol_init example_header
      = (Inr (), ControlProtocol_init
                   \<lparr>cp_transport := [[0, 0, 0, 0, 0, 0, 0, 44], example_header_bytes]\<rparr>)"
    by (simp add: ControlProtocol_send_def ControlProtocol_init_def header_bytes_length to_be8_small)
  moreover have "take 8 (example_header_bytes @ [1, 2, 3]) = [123, 34, 116, 121, 112, 101, 34, 58]"
    by (simp add: example_header_bytes_def)
  moreover have "from_be8 (PyBytes [123, 34, 116, 121, 112, 101, 34, 58]) = Inr 8872782280798839354"
    by (simp add: from_be8_def struct_unpack_Q_def)
  ultimately show ?thesis
    by (simp add: sender_run_example receiver_waits_example header_bytes_length to_be8_small)
qed

section \<open>Overflow\<close>

lemma Receiver_write_below:
  assumes "\<not> fd_closed (fd r)" and "int (length data) < remaining r"
  shows "Receiver_write X r data =
    (Inr None, r\<lparr>hasher := hasher r @ data,
        fd := (fd r)\<lparr>fd_data := fd_data (fd r) @ data\<rparr>,
        progress := progress r + int (length data),
        remaining := remaining r - int (length data)\<rparr>)"
  using assms by (simp add: Receiver_write_def fd_write_def Let_def)

lemma Receiver_write_over:
  assumes "\<not> fd_closed (fd r)" and "remaining r < int (length data)"
  shows "Receiver_write X r data =
    (Inl (RuntimeError ReceiverOverflow), r\<lparr>hasher := hasher r @ data,
        fd := (fd r)\<lparr>fd_data := fd_data (fd r) @ data\<rparr>,
        progress := progress r + int (length data),
        remaining := remaining r - int (length data)\<rparr>)"
  using assms by (simp add: Receiver_write_def fd_write_def Let_def)

lemma Receiver_write_exact:
  assumes "\<not> fd_closed (fd r)" and "remaining r = int (length data)"
  shows "Receiver_write X r data =
    (Inr (Some [''ack'' \<mapsto> JStr ''ok'', ''sha256'' \<mapsto> JStr (sha256_hexdigest X (hasher r @ data))]),
     r\<lparr>hasher := hasher r @ data,
        fd := (fd r)\<lparr>fd_data := fd_data (fd r) @ data, fd_closed := True\<rparr>,
        progress := progress r + int (length data),
        remaining := 0\<rparr>)"
  using assms by (simp add: Receiver_write_def fd_write_def Let_def Receiver_finish_def fd_close_def)

lemma Receiver_write_closed:
  assumes "fd_closed (fd r)"
  shows "Receiver_write X r data = (Inl ClosedFile, r\<lparr>hasher := hasher r @ data\<rparr>)"
  using assms by (simp add: Receiver_write_def fd_write_def Let_def)

lemma Receiver_write_all_below:
  assumes "\<not> fd_closed (fd r)" and "int (length (concat ds)) < remaining r"
  shows "Receiver_write_all X r ds =
    (replicate (length ds) (Inr None),
     r\<lparr>hasher := hasher r @ concat ds,
        fd := (fd r)\<lparr>fd_data := fd_data (fd r) @ concat ds\<rparr>,
        progress := progress r + int (length (concat ds)),
        remaining := remaining r - int (length (concat ds))\<rparr>)"
  using assms
proof (induction ds arbitrary: r)
  case Nil
  then show ?case by simp
next
  case (Cons d ds)
  let ?r1 = "r\<lparr>hasher := hasher r @ d,
        fd := (fd r)\<lparr>fd_data := fd_data (fd r) @ d\<rparr>,
        progress := progress r + int (length d),
        remaining := remaining r - int (length d)\<rparr>"
  from Cons.prems have w: "Receiver_write X r d = (Inr None, ?r1)"
    by (intro Receiver_write_below) simp_all
  from Cons.prems have "\<not> fd_closed (fd ?r1)" "int (length (concat ds)) < remaining ?r1"
    by simp_all
  from Cons.IH [OF this] w show ?case by simp
qed

lemma Receiver_write_all_append:
  "Receiver_write_all X r (xs @ ys) =
     (case Receiver_write_all X r xs of
        (rs1, r1) \<Rightarrow> (case Receiver_write_all X r1 ys of (rs2, r2) \<Rightarrow> (rs1 @ rs2, r2)))"
  by (induction xs arbitrary: r) (simp_all split: prod.splits)

text \<open>
  C2, as amended. A receiver with an open sink still expects \<open>remaining r\<close> bytes.
  Deliveries \<open>ds\<close> that stay below that number, followed by one delivery \<open>d\<close> that
  goes past it: no call before \<open>d\<close> returns an ack or raises, and the call for \<open>d\<close>
  raises the overflow error and returns no ack. By then the whole of \<open>d\<close>, excess
  bytes included, has been hashed and written to the sink.
\<close>

theorem overflow_after_write:
  assumes "\<not> fd_closed (fd r)"
    and "int (length (concat ds)) < remaining r"
    and "remaining r < int (length (concat ds)) + int (length d)"
  shows "fst (Receiver_write_all X r (ds @ [d])) =
           replicate (length ds) (Inr None) @ [Inl (RuntimeError ReceiverOverflow)]
         \<and> fd (snd (Receiver_write_all X r (ds @ [d]))) =
           (fd r)\<lparr>fd_data := fd_data (fd r) @ concat ds @ d\<rparr>
         \<and> hasher (snd (Receiver_write_all X r (ds @ [d]))) = hasher r @ concat ds @ d"
proof -
  let ?r1 = "r\<lparr>hasher := hasher r @ concat ds,
        fd := (fd r)\<lparr>fd_data := fd_data (fd r) @ concat ds\<rparr>,
        progress := progress r + int (length (concat ds)),
        remaining := remaining r - int (length (concat ds))\<rparr>"
  from assms have before: "Receiver_write_all X r ds = (replicate (length ds) (Inr None), ?r1)"
    by (intro Receiver_write_all_below) simp_all
  from assms have "\<not> fd_closed (fd ?r1)" and "remaining ?r1 < int (length d)"
    by simp_all
  from Receiver_write_over [OF this] before show ?thesis
    by (simp add: Receiver_write_all_append)
qed

theorem overflow_after_write_witness:
  "fst (Receiver_write_all demo_externals (new_receiver ''a.bin'' 3) ([[1], [2]] @ [[3, 4]])) =
     [Inr None, Inr None, Inl (RuntimeError ReceiverOverflow)]
   \<and> fd (snd (Receiver_write_all demo_externals (new_receiver ''a.bin'' 3) ([[1], [2]] @ [[3, 4]]))) =
     \<lparr>fd_path = ''a.bin'', fd_data = [1, 2, 3, 4], fd_closed = False\<rparr>"
  using overflow_after_write [of "new_receiver ''a.bin'' 3" "[[1], [2]]" "[3, 4]" demo_externals]
  by (simp add: new_receiver_def new_sink_def)

text \<open>
  C2 as stated fails. A receiver told one byte and handed two in one delivery
  raises the overflow error with both bytes in the sink. Handed the two bytes in
  two deliveries it returns the ack on the first and fails on the closed sink on
  the second.
\<close>

theorem overflow_counterexample:
  "Receiver_write demo_externals (new_receiver ''a.bin'' 1) [1, 2] =
     (Inl (RuntimeError ReceiverOverflow),
      \<lparr>fd = \<lparr>fd_path = ''a.bin'', fd_data = [1, 2], fd_closed = False\<rparr>,
       remaining = - 1, hasher = [1, 2], progress = 2\<rparr>)
   \<and> Receiver_write_all demo_externals (new_receiver ''a.bin'' 1) [[1], [2]] =
     ([Inr (Some [''ack'' \<mapsto> JStr ''ok'', ''sha256'' \<mapsto> JStr ''1.'']), Inl ClosedFile],
      \<lparr>fd = \<lparr>fd_path = ''a.bin'', fd_data = [1], fd_closed = True\<rparr>,
       remaining = 0, hasher = [1, 2], progress = 1\<rparr>)"
  by (simp add: Receiver_write_def fd_write_def Let_def Receiver_finish_def fd_close_def
      new_receiver_def new_sink_def demo_externals_def demo_digest_1)

section \<open>Header validation\<close>

lemma incoming_file_checks_Inl_iff:
  "(\<exists>e. incoming_file_checks header = Inl e) \<longleftrightarrow>
     (header ''type'' \<noteq> Some (JStr ''file'')
      \<or> header ''compression'' \<noteq> None
      \<or> ((\<forall>n. header ''size'' \<noteq> Some (JInt n)) \<and> (\<forall>b. header ''size'' \<noteq> Some (JBool b))))"
proof -
  have int_cases: "is_integer v \<longleftrightarrow> (\<exists>n. v = JInt n) \<or> (\<exists>b. v = JBool b)" for v
    by (cases v) simp_all
  show ?thesis
    by (auto simp: incoming_file_checks_def int_cases split: option.splits)
qed

lemma incoming_file_rejects:
  "incoming_file_checks header = Inl e \<Longrightarrow> incoming_file X existing header = Some (Inl e)"
  by (simp add: incoming_file_def)

lemma incoming_file_accepts:
  assumes "header ''type'' = Some (JStr ''file'')" and "header ''compression'' = None"
    and "header ''size'' = Some sz" and "is_integer sz"
    and "header ''name'' = Some (JStr nm)" and "child X nm = Inr t"
    and "find_target X existing nm 1 t = Some (Inr target)"
  shows "incoming_file X existing header =
           Some (Inr (\<lparr>fd = \<lparr>fd_path = target, fd_data = [], fd_closed = False\<rparr>,
                        remaining = int_of_jval sz, hasher = [], progress = 0\<rparr>,
                      target # existing))"
  using assms
  by (simp add: incoming_file_def incoming_file_checks_def incoming_file_open_def)

lemma find_target_free:
  "t \<notin> set existing \<Longrightarrow> find_target X existing nm count t = Some (Inr t)"
  by (simp add: find_target.simps)

lemma read_frame_extend:
  assumes "read_frame buf = Inr (Some (hb, rest))"
  shows "read_frame (buf @ extra) = Inr (Some (hb, rest @ extra))"
proof -
  from assms have len: "\<not> length buf < 8"
    by (auto simp: read_frame_def split: if_splits)
  from assms obtain n where n: "from_be8 (PyBytes (take 8 buf)) = Inr n"
    and long: "\<not> int (length buf) < 8 + n"
    and hb: "hb = take (nat n) (drop 8 buf)" and rest: "rest = drop (8 + nat n) buf"
    using len by (auto simp: read_frame_def Let_def split: if_splits sum.splits)
  from n have "0 \<le> n"
    using unpack_bounds [of "take 8 buf"] by (auto simp: from_be8_def split: if_splits)
  with len long n hb rest show ?thesis
    by (auto simp: read_frame_def Let_def)
qed

lemma rejected_header_stays_rejected:
  assumes "in_header s" and "read_frame (header_buffer s) = Inr (Some (hb, rest))"
    and "bytes_to_dict X hb = Inr header" and "incoming_file_checks header = Inl e"
  shows "ReceiveProtocol_dataReceived_all X s ds =
           Some (replicate (length ds) (Inl e), s\<lparr>header_buffer := header_buffer s @ concat ds\<rparr>)"
  using assms
proof (induction ds arbitrary: s rest)
  case Nil
  then show ?case by simp
next
  case (Cons d ds)
  let ?s1 = "s\<lparr>header_buffer := header_buffer s @ d\<rparr>"
  from Cons.prems have rf: "read_frame (header_buffer s @ d) = Inr (Some (hb, rest @ d))"
    by (intro read_frame_extend)
  with Cons.prems have step: "ReceiveProtocol_dataReceived X s d = Some (Inl e, ?s1)"
    by (simp add: ReceiveProtocol_dataReceived_def incoming_file_rejects)
  from Cons.prems rf have "in_header ?s1" "read_frame (header_buffer ?s1) = Inr (Some (hb, rest @ d))"
    by simp_all
  from Cons.IH [OF this Cons.prems(3,4)] step show ?case by simp
qed

text \<open>
  The loop, entered at count \<open>count\<close> with a path that exists: when the paths it
  tries from there up to number \<open>n\<close> exist and number \<open>n\<close> does not, it ends with
  number \<open>n\<close>.
\<close>

lemma find_target_finds:
  assumes busy: "\<And>k. count \<le> k \<Longrightarrow> k < n \<Longrightarrow> \<exists>t. candidate X nm k = Inr t \<and> t \<in> set existing"
    and free: "candidate X nm n = Inr target" "target \<notin> set existing"
    and cur: "tcur \<in> set existing" and pos: "0 < count" and le: "count \<le> n"
  shows "find_target X existing nm count tcur = Some (Inr target)"
  using busy cur pos le
proof (induction "n - count" arbitrary: count tcur)
  case 0
  then have "count = n" by simp
  with free "0.prems"(3) have "child X (nm @ '' ('' @ show_nat count @ '')'') = Inr target"
    by (simp add: candidate_def)
  with "0.prems"(2) free(2) show ?case
    by (simp add: find_target.simps [of X existing nm count tcur]
        find_target.simps [of X existing nm "Suc count" target])
next
  case (Suc m)
  then have lt: "count < n" by simp
  from Suc.prems(1) [of count] lt obtain t where
    t: "candidate X nm count = Inr t" "t \<in> set existing" by auto
  with Suc.prems(3) have step: "child X (nm @ '' ('' @ show_nat count @ '')'') = Inr t"
    by (simp add: candidate_def)
  have "find_target X existing nm (Suc count) t = Some (Inr target)"
  proof (rule Suc.hyps(1))
    show "m = n - Suc count" using Suc.hyps(2) by simp
    show "\<exists>t. candidate X nm k = Inr t \<and> t \<in> set existing" if "Suc count \<le> k" "k < n" for k
      using Suc.prems(1) [of k] that by simp
    show "t \<in> set existing" by (rule t(2))
    show "0 < Suc count" by simp
    show "Suc count \<le> n" using lt by simp
  qed
  with step Suc.prems(2) show ?case
    by (simp add: find_target.simps [of X existing nm count tcur])
qed

lemma find_target_from_first:
  assumes busy: "\<forall>k<n. \<exists>t. candidate X nm k = Inr t \<and> t \<in> set existing"
    and free: "candidate X nm n = Inr target" "target \<notin> set existing"
  shows "\<exists>t0. child X nm = Inr t0 \<and> find_target X existing nm 1 t0 = Some (Inr target)"
proof (cases n)
  case 0
  with free have "child X nm = Inr target" by (simp add: candidate_def)
  with free(2) show ?thesis by (simp add: find_target.simps)
next
  case (Suc m)
  with busy obtain t0 where t0: "candidate X nm 0 = Inr t0" "t0 \<in> set existing" by auto
  then have first: "child X nm = Inr t0" by (simp add: candidate_def)
  have "find_target X existing nm 1 t0 = Some (Inr target)"
  proof (rule find_target_finds [where n = n])
    show "\<exists>t. candidate X nm k = Inr t \<and> t \<in> set existing" if "1 \<le> k" "k < n" for k
      using busy that by simp
    show "candidate X nm n = Inr target" "target \<notin> set existing" by (rule free)+
    show "t0 \<in> set existing" by (rule t0(2))
    show "0 < (1::nat)" by simp
    show "1 \<le> n" using Suc by simp
  qed
  with first show ?thesis by blast
qed

text \<open>
  C3, as amended. The header checks of \<open>incoming_file\<close> raise exactly when the type
  is missing or is not \<open>"file"\<close>, or a compression key is present, or the size is
  missing or is neither an integer nor a boolean; the sign of the size is not
  looked at. When they raise, \<open>incoming_file\<close> raises the same error before it
  touches the downloads directory, and the protocol that decoded the header raises
  it on that delivery and on every later one, with its transport, its receiver and
  the directory listing unchanged: no file is opened and no ack is written. A
  header that passes the checks and carries a string name is accepted when the
  search of lines 133-138 comes to a free path: of the paths the downloads
  directory gives for the name, for \<open>"name (1)"\<close>, for \<open>"name (2)"\<close> and so on, those
  before number \<open>i\<close> exist and number \<open>i\<close> does not. The file opened is number \<open>i\<close>, the
  receiver expects the size of the header, and the path is added to the listing.
\<close>

theorem header_validation:
  "((\<exists>e. incoming_file_checks header = Inl e) \<longleftrightarrow>
       (header ''type'' \<noteq> Some (JStr ''file'')
        \<or> header ''compression'' \<noteq> None
        \<or> ((\<forall>n. header ''size'' \<noteq> Some (JInt n)) \<and> (\<forall>b. header ''size'' \<noteq> Some (JBool b)))))
   \<and> (incoming_file_checks header = Inl e \<longrightarrow>
        incoming_file X existing header = Some (Inl e))
   \<and> (incoming_file_checks header = Inl e \<and> in_header s
        \<and> read_frame (header_buffer s @ d) = Inr (Some (hb, rest))
        \<and> bytes_to_dict X hb = Inr header \<longrightarrow>
        ReceiveProtocol_dataReceived_all X s (d # ds) =
          Some (replicate (Suc (length ds)) (Inl e),
                s\<lparr>header_buffer := header_buffer s @ d @ concat ds\<rparr>))
   \<and> (header ''type'' = Some (JStr ''file'') \<and> header ''compression'' = None
        \<and> header ''size'' = Some sz \<and> is_integer sz
        \<and> header ''name'' = Some (JStr nm)
        \<and> (\<forall>k<i. \<exists>t. candidate X nm k = Inr t \<and> t \<in> set existing)
        \<and> candidate X nm i = Inr target \<and> target \<notin> set existing \<longrightarrow>
        incoming_file X existing header =
          Some (Inr (\<lparr>fd = \<lparr>fd_path = target, fd_data = [], fd_closed = False\<rparr>,
                       remaining = int_of_jval sz, hasher = [], progress = 0\<rparr>,
                     target # existing)))"
proof (intro conjI impI)
  show "(\<exists>e. incoming_file_checks header = Inl e) \<longleftrightarrow>
       (header ''type'' \<noteq> Some (JStr ''file'')
        \<or> header ''compression'' \<noteq> None
        \<or> ((\<forall>n. header ''size'' \<noteq> Some (JInt n)) \<and> (\<forall>b. header ''size'' \<noteq> Some (JBool b))))"
    by (rule incoming_file_checks_Inl_iff)
next
  assume "incoming_file_checks header = Inl e"
  then show "incoming_file X existing header = Some (Inl e)"
    by (rule incoming_file_rejects)
next
  assume a: "incoming_file_checks header = Inl e \<and> in_header s
        \<and> read_frame (header_buffer s @ d) = Inr (Some (hb, rest))
        \<and> bytes_to_dict X hb = Inr header"
  let ?s1 = "s\<lparr>header_buffer := header_buffer s @ d\<rparr>"
  from a have step: "ReceiveProtocol_dataReceived X s d = Some (Inl e, ?s1)"
    by (simp add: ReceiveProtocol_dataReceived_def incoming_file_rejects)
  from a have "in_header ?s1" "read_frame (header_buffer ?s1) = Inr (Some (hb, rest))"
    "bytes_to_dict X hb = Inr header" "incoming_file_checks header = Inl e"
    by simp_all
  from rejected_header_stays_rejected [OF this, of ds] step
  show "ReceiveProtocol_dataReceived_all X s (d # ds) =
          Some (replicate (Suc (length ds)) (Inl e),
                s\<lparr>header_buffer := header_buffer s @ d @ concat ds\<rparr>)"
    by simp
next
  assume a: "header ''type'' = Some (JStr ''file'') \<and> header ''compression'' = None
        \<and> header ''size'' = Some sz \<and> is_integer sz
        \<and> header ''name'' = Some (JStr nm)
        \<and> (\<forall>k<i. \<exists>t. candidate X nm k = Inr t \<and> t \<in> set existing)
        \<and> candidate X nm i = Inr target \<and> target \<notin> set existing"
  then have "\<exists>t0. child X nm = Inr t0 \<and> find_target X existing nm 1 t0 = Some (Inr target)"
    by (intro find_target_from_first [where n = i]) simp_all
  then obtain t0 where "child X nm = Inr t0"
    and "find_target X existing nm 1 t0 = Some (Inr target)" by blast
  with a show "incoming_file X existing header =
          Some (Inr (\<lparr>fd = \<lparr>fd_path = target, fd_data = [], fd_closed = False\<rparr>,
                       remaining = int_of_jval sz, hasher = [], progress = 0\<rparr>,
                     target # existing))"
    by (intro incoming_file_accepts) simp_all
qed

lemma demo_candidates:
  "candidate demo_externals ''a.bin'' 0 = Inr ''a.bin''"
  "candidate demo_externals ''a.bin'' 1 = Inr ''a.bin (1)''"
  by (simp_all add: candidate_def demo_externals_def show_nat.simps digit_def)

theorem header_validation_witness:
  "incoming_file demo_externals [] example_header =
     Some (Inr (\<lparr>fd = \<lparr>fd_path = ''a.bin'', fd_data = [], fd_closed = False\<rparr>,
                  remaining = 3, hasher = [], progress = 0\<rparr>, [''a.bin'']))
   \<and> incoming_file demo_externals [''a.bin''] example_header =
     Some (Inr (\<lparr>fd = \<lparr>fd_path = ''a.bin (1)'', fd_data = [], fd_closed = False\<rparr>,
                  remaining = 3, hasher = [], progress = 0\<rparr>, [''a.bin (1)'', ''a.bin'']))
   \<and> incoming_file demo_externals [] tarball_header =
     Some (Inl (RuntimeError (UnknownHeaderType (JStr ''tarball''))))
   \<and> ReceiveProtocol_dataReceived_all demo_externals (ReceiveProtocol_init [])
       ([0, 0, 0, 0, 0, 0, 0, 3, 123, 116, 125] # [[1, 2, 3]]) =
     Some ([Inl (RuntimeError (UnknownHeaderType (JStr ''tarball''))),
            Inl (RuntimeError (UnknownHeaderType (JStr ''tarball'')))],
           (ReceiveProtocol_init [])
             \<lparr>header_buffer := [0, 0, 0, 0, 0, 0, 0, 3, 123, 116, 125, 1, 2, 3]\<rparr>)"
proof -
  have rej: "incoming_file_checks tarball_header =
      Inl (RuntimeError (UnknownHeaderType (JStr ''tarball'')))"
    by (simp add: incoming_file_checks_def tarball_header_def)
  have frame: "read_frame (header_buffer (ReceiveProtocol_init [])
      @ [0, 0, 0, 0, 0, 0, 0, 3, 123, 116, 125]) = Inr (Some ([123, 116, 125], []))"
    by (simp add: ReceiveProtocol_init_def read_frame_def from_be8_def struct_unpack_Q_def)
  have dec: "bytes_to_dict demo_externals [123, 116, 125] = Inr tarball_header"
    by (simp add: demo_externals_def demo_bytes_to_dict_def example_header_bytes_def)
  have acc: "example_header ''type'' = Some (JStr ''file'') \<and> example_header ''compression'' = None
      \<and> example_header ''size'' = Some (JInt 3) \<and> is_integer (JInt 3)
      \<and> example_header ''name'' = Some (JStr ''a.bin'')"
    by (simp add: example_header_def)
  show ?thesis
    using header_validation [of example_header _ demo_externals "[]" _ _ _ _ _ "JInt 3" "''a.bin''"
        0 "''a.bin''"]
      header_validation [of example_header _ demo_externals "[''a.bin'']" _ _ _ _ _ "JInt 3"
        "''a.bin''" 1 "''a.bin (1)''"]
      demo_candidates
      header_validation [of tarball_header "RuntimeError (UnknownHeaderType (JStr ''tarball''))"
        demo_externals "[]" "ReceiveProtocol_init []" "[0, 0, 0, 0, 0, 0, 0, 3, 123, 116, 125]"
        "[123, 116, 125]" "[]" "[[1, 2, 3]]"]
      rej frame dec acc
    by (simp add: ReceiveProtocol_init_def)
qed

text \<open>
  C3 as stated fails. A header with size -1 is not rejected: the destination file
  is opened and a receiver expecting -1 bytes is returned. A header with no name
  passes the three checks and is not accepted: the lookup of its name raises.
\<close>

theorem header_validation_counterexample:
  "incoming_file demo_externals [] negative_size_header =
     Some (Inr (\<lparr>fd = \<lparr>fd_path = ''a.bin'', fd_data = [], fd_closed = False\<rparr>,
                  remaining = - 1, hasher = [], progress = 0\<rparr>, [''a.bin'']))
   \<and> incoming_file_checks nameless_header = Inr (JInt 3)
   \<and> incoming_file demo_externals [] nameless_header = Some (Inl (KeyError ''name''))"
  by (simp add: incoming_file_def incoming_file_checks_def incoming_file_open_def
      negative_size_header_def nameless_header_def demo_externals_def find_target.simps)

section \<open>Closing a stream\<close>




section \<open>Processing the ack\<close>

text \<open>
  C7, as amended. A complete ack frame has arrived at a sender that has not seen
  one before: the buffer with the new data decodes to the frame \<open>ab\<close>, which decodes
  to the map \<open>ack\<close>. The sender marks itself done and closes the stream (state \<open>s'\<close>),
  and then exactly one of six things happens, decided in this order: with no
  expected hash yet it raises "premature ack"; with no \<open>ack\<close> key in the map it
  raises \<open>KeyError\<close>; with an ack value other than \<open>"ok"\<close> it raises "ack not ok" with
  the map received; with no \<open>sha256\<close> key it raises \<open>KeyError\<close>; with a digest other
  than the expected one it raises "ack bad hash"; otherwise it fires the done
  observer with \<open>"ok"\<close> (line 211), which delivers \<open>"ok"\<close> to an observer that has not
  fired before.
\<close>

theorem ack_outcomes:
  assumes "\<not> sp_done s"
    and "read_frame (sp_ack_buffer s @ data) = Inr (Some (ab, rest))"
    and "bytes_to_dict X ab = Inr ack"
    and "s' = s\<lparr>sp_ack_buffer := sp_ack_buffer s @ data, sp_done := True, sp_disconnecting := True\<rparr>"
  shows "SendProtocol_dataReceived X s data =
    (case sp_expected_hexhash s of
       None \<Rightarrow> (Inl (RuntimeError PrematureAck), s')
     | Some e \<Rightarrow>
         (case ack ''ack'' of
            None \<Rightarrow> (Inl (KeyError ''ack''), s')
          | Some a \<Rightarrow>
              if a \<noteq> JStr ''ok'' then (Inl (RuntimeError (AckNotOk ack)), s')
              else
                (case ack ''sha256'' of
                   None \<Rightarrow> (Inl (KeyError ''sha256''), s')
                 | Some h \<Rightarrow>
                     if h \<noteq> JStr e then (Inl (RuntimeError (AckBadHash h e)), s')
                     else
                       (case OneShotObserver_fire (sp_done_observer s) FiredOk of
                          Inl err \<Rightarrow> (Inl err, s')
                        | Inr obs \<Rightarrow> (Inr (), s'\<lparr>sp_done_observer := obs\<rparr>)))))
    \<and> (sp_done_observer s = None \<longrightarrow>
         OneShotObserver_fire (sp_done_observer s) FiredOk = Inr (Some FiredOk))"
proof -
  from assms have call: "SendProtocol_dataReceived X s data = SendProtocol_process_ack s' ack"
    by (simp add: SendProtocol_dataReceived_def)
  have fields: "sp_expected_hexhash s' = sp_expected_hexhash s"
    "sp_done_observer s' = sp_done_observer s"
    by (simp_all add: assms(4))
  have chain: "SendProtocol_process_ack s' ack =
    (case sp_expected_hexhash s of
       None \<Rightarrow> (Inl (RuntimeError PrematureAck), s')
     | Some e \<Rightarrow>
         (case ack ''ack'' of
            None \<Rightarrow> (Inl (KeyError ''ack''), s')
          | Some a \<Rightarrow>
              if a \<noteq> JStr ''ok'' then (Inl (RuntimeError (AckNotOk ack)), s')
              else
                (case ack ''sha256'' of
                   None \<Rightarrow> (Inl (KeyError ''sha256''), s')
                 | Some h \<Rightarrow>
                     if h \<noteq> JStr e then (Inl (RuntimeError (AckBadHash h e)), s')
                     else
                       (case OneShotObserver_fire (sp_done_observer s) FiredOk of
                          Inl err \<Rightarrow> (Inl err, s')
                        | Inr obs \<Rightarrow> (Inr (), s'\<lparr>sp_done_observer := obs\<rparr>)))))"
    unfolding SendProtocol_process_ack_def fields ..
  have fresh: "sp_done_observer s = None \<longrightarrow>
         OneShotObserver_fire (sp_done_observer s) FiredOk = Inr (Some FiredOk)"
    by (simp add: OneShotObserver_fire_def)
  from call chain fresh show ?thesis by simp
qed

theorem ack_outcomes_witness:
  "SendProtocol_dataReceived demo_externals (SendProtocol_init [] example_header 3)
       [0, 0, 0, 0, 0, 0, 0, 3, 123, 97, 125] =
     (Inl (RuntimeError PrematureAck),
      (SendProtocol_init [] example_header 3)
        \<lparr>sp_ack_buffer := [0, 0, 0, 0, 0, 0, 0, 3, 123, 97, 125], sp_done := True,
         sp_disconnecting := True\<rparr>)
   \<and> SendProtocol_dataReceived demo_externals
       ((SendProtocol_init [] example_header 3)\<lparr>sp_expected_hexhash := Some ''1.2.3.''\<rparr>)
       [0, 0, 0, 0, 0, 0, 0, 3, 123, 110, 125] =
     (Inl (RuntimeError (AckNotOk refused_ack)),
      (SendProtocol_init [] example_header 3)
        \<lparr>sp_expected_hexhash := Some ''1.2.3.'',
         sp_ack_buffer := [0, 0, 0, 0, 0, 0, 0, 3, 123, 110, 125], sp_done := True,
         sp_disconnecting := True\<rparr>)
   \<and> SendProtocol_dataReceived demo_externals
       ((SendProtocol_init [] example_header 3)\<lparr>sp_expected_hexhash := Some ''1.2.3.''\<rparr>)
       [0, 0, 0, 0, 0, 0, 0, 3, 123, 98, 125] =
     (Inl (RuntimeError (AckBadHash (JStr ''0.'') ''1.2.3.'')),
      (SendProtocol_init [] example_header 3)
        \<lparr>sp_expected_hexhash := Some ''1.2.3.'',
         sp_ack_buffer := [0, 0, 0, 0, 0, 0, 0, 3, 123, 98, 125], sp_done := True,
         sp_disconnecting := True\<rparr>)
   \<and> SendProtocol_dataReceived demo_externals
       ((SendProtocol_init [] example_header 3)\<lparr>sp_expected_hexhash := Some ''1.2.3.''\<rparr>)
       [0, 0, 0, 0, 0, 0, 0, 3, 123, 97, 125] =
     (Inr (),
      (SendProtocol_init [] example_header 3)
        \<lparr>sp_expected_hexhash := Some ''1.2.3.'',
         sp_ack_buffer := [0, 0, 0, 0, 0, 0, 0, 3, 123, 97, 125], sp_done := True,
         sp_disconnecting := True, sp_done_observer := Some FiredOk\<rparr>)"
proof -
  let ?s0 = "SendProtocol_init [] example_header 3"
  let ?s1 = "?s0\<lparr>sp_expected_hexhash := Some ''1.2.3.''\<rparr>"
  have st: "\<not> sp_done ?s0" "sp_ack_buffer ?s0 = []" "sp_expected_hexhash ?s0 = None"
    "\<not> sp_done ?s1" "sp_ack_buffer ?s1 = []" "sp_expected_hexhash ?s1 = Some ''1.2.3.''"
    "sp_done_observer ?s1 = None" "sp_done_observer ?s0 = None"
    by (simp_all add: SendProtocol_init_def)
  have keys: "refused_ack ''ack'' = Some (JStr ''no'')" "ok_ack ''ack'' = Some (JStr ''ok'')"
    "wrong_hash_ack ''ack'' = Some (JStr ''ok'')" "wrong_hash_ack ''sha256'' = Some (JStr ''0.'')"
    "ok_ack ''sha256'' = Some (JStr ''1.2.3.'')"
    by (simp_all add: refused_ack_def ok_ack_def wrong_hash_ack_def)
  note a = ack_outcomes [of ?s0 "[0, 0, 0, 0, 0, 0, 0, 3, 123, 97, 125]" "[123, 97, 125]" "[]"
      demo_externals ok_ack, OF _ _ _ refl]
  note b = ack_outcomes [of ?s1 "[0, 0, 0, 0, 0, 0, 0, 3, 123, 110, 125]" "[123, 110, 125]" "[]"
      demo_externals refused_ack, OF _ _ _ refl]
  note c = ack_outcomes [of ?s1 "[0, 0, 0, 0, 0, 0, 0, 3, 123, 98, 125]" "[123, 98, 125]" "[]"
      demo_externals wrong_hash_ack, OF _ _ _ refl]
  note d = ack_outcomes [of ?s1 "[0, 0, 0, 0, 0, 0, 0, 3, 123, 97, 125]" "[123, 97, 125]" "[]"
      demo_externals ok_ack, OF _ _ _ refl]
  from a b c d show ?thesis
    using st keys demo_decodes_acks ack_frames by simp
qed

text \<open>
  C7 as stated fails. A sender that knows its digest is handed a complete frame
  whose map has no key at all: \<open>dataReceived\<close> raises \<open>KeyError\<close>, which is none of the
  four outcomes of the claim.
\<close>

theorem ack_outcomes_counterexample:
  "SendProtocol_dataReceived demo_externals
       ((SendProtocol_init [] example_header 3)\<lparr>sp_expected_hexhash := Some ''1.2.3.''\<rparr>)
       [0, 0, 0, 0, 0, 0, 0, 2, 123, 125] =
     (Inl (KeyError ''ack''),
      (SendProtocol_init [] example_header 3)
        \<lparr>sp_expected_hexhash := Some ''1.2.3.'',
         sp_ack_buffer := [0, 0, 0, 0, 0, 0, 0, 2, 123, 125], sp_done := True,
         sp_disconnecting := True\<rparr>)"
  using ack_frames(4) demo_decodes_acks(4)
  by (simp add: SendProtocol_dataReceived_def SendProtocol_process_ack_def SendProtocol_init_def)

section \<open>Digests\<close>

lemma Receiver_write_all_closed:
  "fd_closed (fd r) \<Longrightarrow>
   Receiver_write_all X r ds =
     (replicate (length ds) (Inl ClosedFile), r\<lparr>hasher := hasher r @ concat ds\<rparr>)"
proof (induction ds arbitrary: r)
  case Nil
  then show ?case by simp
next
  case (Cons d ds)
  let ?r1 = "r\<lparr>hasher := hasher r @ d\<rparr>"
  from Cons.prems have "fd_closed (fd ?r1)" by simp
  from Cons.IH [OF this] Cons.prems show ?case
    by (simp add: Receiver_write_closed)
qed

lemma Receiver_write_all_Cons:
  "Receiver_write_all X r (d # ds) =
     (fst (Receiver_write X r d) # fst (Receiver_write_all X (snd (Receiver_write X r d)) ds),
      snd (Receiver_write_all X (snd (Receiver_write X r d)) ds))"
  by (simp split: prod.splits)

lemma Receiver_write_all_exact:
  assumes "ds \<noteq> []" and "\<not> fd_closed (fd r)" and "remaining r = int (length (concat ds))"
  shows "(\<exists>i j. fst (Receiver_write_all X r ds) =
            replicate i (Inr None)
            @ Inr (Some [''ack'' \<mapsto> JStr ''ok'',
                         ''sha256'' \<mapsto> JStr (sha256_hexdigest X (hasher r @ concat ds))])
            # replicate j (Inl ClosedFile))
    \<and> hasher (snd (Receiver_write_all X r ds)) = hasher r @ concat ds
    \<and> fd_data (fd (snd (Receiver_write_all X r ds))) = fd_data (fd r) @ concat ds"
  using assms
proof (induction ds arbitrary: r)
  case Nil
  then show ?case by simp
next
  case (Cons d ds)
  show ?case
  proof (cases "remaining r = int (length d)")
    case True
    with Cons.prems have rest: "concat ds = []" by simp
    let ?r1 = "r\<lparr>hasher := hasher r @ d,
        fd := (fd r)\<lparr>fd_data := fd_data (fd r) @ d, fd_closed := True\<rparr>,
        progress := progress r + int (length d),
        remaining := 0\<rparr>"
    from Cons.prems True have w: "Receiver_write X r d =
        (Inr (Some [''ack'' \<mapsto> JStr ''ok'', ''sha256'' \<mapsto> JStr (sha256_hexdigest X (hasher r @ d))]), ?r1)"
      by (intro Receiver_write_exact) simp_all
    have "fd_closed (fd ?r1)" by simp
    from Receiver_write_all_closed [OF this, of X ds] w
    have "fst (Receiver_write_all X r (d # ds)) =
            replicate 0 (Inr None)
            @ Inr (Some [''ack'' \<mapsto> JStr ''ok'',
                         ''sha256'' \<mapsto> JStr (sha256_hexdigest X (hasher r @ concat (d # ds)))])
            # replicate (length ds) (Inl ClosedFile)"
      and "hasher (snd (Receiver_write_all X r (d # ds))) = hasher r @ concat (d # ds)"
      and "fd_data (fd (snd (Receiver_write_all X r (d # ds)))) = fd_data (fd r) @ concat (d # ds)"
      by (simp_all add: rest)
    then show ?thesis by blast
  next
    case False
    with Cons.prems have below: "int (length d) < remaining r" by simp
    let ?r1 = "r\<lparr>hasher := hasher r @ d,
        fd := (fd r)\<lparr>fd_data := fd_data (fd r) @ d\<rparr>,
        progress := progress r + int (length d),
        remaining := remaining r - int (length d)\<rparr>"
    from Cons.prems below have w: "Receiver_write X r d = (Inr None, ?r1)"
      by (intro Receiver_write_below) simp_all
    from Cons.prems below have ne: "ds \<noteq> []" by auto
    from Cons.prems have "\<not> fd_closed (fd ?r1)" "remaining ?r1 = int (length (concat ds))"
      by simp_all
    from Cons.IH [OF ne this] obtain i j where
      run: "fst (Receiver_write_all X ?r1 ds) =
            replicate i (Inr None)
            @ Inr (Some [''ack'' \<mapsto> JStr ''ok'',
                         ''sha256'' \<mapsto> JStr (sha256_hexdigest X (hasher ?r1 @ concat ds))])
            # replicate j (Inl ClosedFile)"
      and h: "hasher (snd (Receiver_write_all X ?r1 ds)) = hasher ?r1 @ concat ds"
      and f: "fd_data (fd (snd (Receiver_write_all X ?r1 ds))) = fd_data (fd ?r1) @ concat ds"
      by blast
    from run w have "fst (Receiver_write_all X r (d # ds)) =
            replicate (Suc i) (Inr None)
            @ Inr (Some [''ack'' \<mapsto> JStr ''ok'',
                         ''sha256'' \<mapsto> JStr (sha256_hexdigest X (hasher r @ concat (d # ds)))])
            # replicate j (Inl ClosedFile)"
      by (simp add: Receiver_write_all_Cons del: Receiver_write_all.simps)
    moreover from h w have "hasher (snd (Receiver_write_all X r (d # ds))) = hasher r @ concat (d # ds)"
      by (simp add: Receiver_write_all_Cons del: Receiver_write_all.simps)
    moreover from f w have "fd_data (fd (snd (Receiver_write_all X r (d # ds)))) = fd_data (fd r) @ concat (d # ds)"
      by (simp add: Receiver_write_all_Cons del: Receiver_write_all.simps)
    ultimately show ?thesis by blast
  qed
qed

lemma FileSender_run_fields:
  "sp_expected_hexhash (FileSender_run X s) = Some (sha256_hexdigest X (sp_hasher s @ sp_fd s))
   \<and> concat (sp_transport (FileSender_run X s)) = concat (sp_transport s) @ sp_fd s
   \<and> sp_hasher (FileSender_run X s) = sp_hasher s @ sp_fd s
   \<and> sp_done_observer (FileSender_run X s) = sp_done_observer s
   \<and> sp_done (FileSender_run X s) = sp_done s
   \<and> sp_ack_buffer (FileSender_run X s) = sp_ack_buffer s"
proof (induction X s rule: FileSender_run.induct)
  case (1 X s)
  show ?case
  proof (cases "sp_fd s = []")
    case True
    then show ?thesis
      by (simp add: FileSender_run.simps [of X s] FileSender_resumeProducing_def)
  next
    case False
    let ?s1 = "FileSender_resumeProducing X s"
    from False have pos: "take CHUNK_SIZE (sp_fd s) \<noteq> []"
      by (simp add: CHUNK_SIZE_def)
    then have s1: "sp_hasher ?s1 @ sp_fd ?s1 = sp_hasher s @ sp_fd s"
      "concat (sp_transport ?s1) @ sp_fd ?s1 = concat (sp_transport s) @ sp_fd s"
      "sp_done_observer ?s1 = sp_done_observer s" "sp_done ?s1 = sp_done s"
      "sp_ack_buffer ?s1 = sp_ack_buffer s"
      by (simp_all add: FileSender_resumeProducing_def Let_def)
    from False have "FileSender_run X s = FileSender_run X ?s1"
      by (simp add: FileSender_run.simps [of X s])
    with "1.IH" [OF False] s1 show ?thesis by simp
  qed
qed

text \<open>
  C5. A file is sent: \<open>s\<close> is the sender after \<open>connectionMade\<close> and the whole
  \<open>FileSender\<close> run. What it put on the stream after the header is the file, and
  its expected digest is the digest of the file. A fresh receiver told the length
  of the file is handed the same bytes, split into deliveries \<open>ds\<close> in any way.
  Exactly one call returns an ack (the calls before it return nothing, and any
  empty delivery after it fails on the closed sink); the receiver has hashed
  exactly the file, the ack carries the digest of the file, which is the sender's
  expected digest, the sink holds the file, and the sender's check of this ack
  fires its done observer with \<open>"ok"\<close>.
\<close>

theorem digest_agreement:
  assumes "ds \<noteq> []" and "concat ds = file"
    and "\<not> fd_closed (fd r)" and "hasher r = []" and "remaining r = int (length file)"
    and "s = FileSender_run X (SendProtocol_connectionMade X (SendProtocol_init file header sz))"
    and "ack = [''ack'' \<mapsto> JStr ''ok'', ''sha256'' \<mapsto> JStr (sha256_hexdigest X file)]"
  shows "concat (sp_transport s) = dict_to_bytes X header @ file
    \<and> sp_expected_hexhash s = Some (sha256_hexdigest X file)
    \<and> hasher (snd (Receiver_write_all X r ds)) = file
    \<and> (\<exists>i j. fst (Receiver_write_all X r ds) =
          replicate i (Inr None) @ Inr (Some ack) # replicate j (Inl ClosedFile))
    \<and> fd_data (fd (snd (Receiver_write_all X r ds))) = fd_data (fd r) @ file
    \<and> SendProtocol_process_ack (s\<lparr>sp_done := True, sp_disconnecting := True\<rparr>) ack =
        (Inr (), s\<lparr>sp_done := True, sp_disconnecting := True, sp_done_observer := Some FiredOk\<rparr>)"
proof -
  let ?s0 = "SendProtocol_connectionMade X (SendProtocol_init file header sz)"
  have s0: "sp_hasher ?s0 = []" "sp_fd ?s0 = file" "sp_transport ?s0 = [dict_to_bytes X header]"
    "sp_done_observer ?s0 = None"
    by (simp_all add: SendProtocol_connectionMade_def SendProtocol_init_def)
  from FileSender_run_fields [of X ?s0] s0 assms(6)
  have sent: "concat (sp_transport s) = dict_to_bytes X header @ file"
    and expd: "sp_expected_hexhash s = Some (sha256_hexdigest X file)"
    and obs: "sp_done_observer s = None"
    by simp_all
  from assms have "remaining r = int (length (concat ds))" by simp
  from Receiver_write_all_exact [OF assms(1) assms(3) this, of X] assms(2,4,7)
  have rcv: "\<exists>i j. fst (Receiver_write_all X r ds) =
          replicate i (Inr None) @ Inr (Some ack) # replicate j (Inl ClosedFile)"
    and hashed: "hasher (snd (Receiver_write_all X r ds)) = file"
    and sink: "fd_data (fd (snd (Receiver_write_all X r ds))) = fd_data (fd r) @ file"
    by simp_all
  from expd obs assms(7)
  have "SendProtocol_process_ack (s\<lparr>sp_done := True, sp_disconnecting := True\<rparr>) ack =
        (Inr (), s\<lparr>sp_done := True, sp_disconnecting := True, sp_done_observer := Some FiredOk\<rparr>)"
    by (simp add: SendProtocol_process_ack_def OneShotObserver_fire_def)
  with sent expd rcv hashed sink show ?thesis by blast
qed

theorem digest_agreement_witness:
  "sp_expected_hexhash (FileSender_run demo_externals
      (SendProtocol_connectionMade demo_externals (SendProtocol_init [1, 2, 3] example_header 3)))
     = Some ''1.2.3.''
   \<and> hasher (snd (Receiver_write_all demo_externals (new_receiver ''a.bin'' 3) [[1], [2, 3]]))
     = [1, 2, 3]
   \<and> (\<exists>i j. fst (Receiver_write_all demo_externals (new_receiver ''a.bin'' 3) [[1], [2, 3]]) =
          replicate i (Inr None) @ Inr (Some ok_ack) # replicate j (Inl ClosedFile))
   \<and> fd_data (fd (snd (Receiver_write_all demo_externals (new_receiver ''a.bin'' 3) [[1], [2, 3]])))
     = [1, 2, 3]"
  using digest_agreement [of "[[1], [2, 3]]" "[1, 2, 3]" "new_receiver ''a.bin'' 3" _
      demo_externals example_header 3 _, OF _ _ _ _ _ refl refl]
  by (simp add: new_receiver_def new_sink_def demo_externals_def demo_digest_123 ok_ack_def)

section \<open>A file of size zero\<close>

text \<open>
  C9. A receiver that awaits its header is handed the last bytes of a header frame
  and nothing after them. The header decodes to a map of type \<open>"file"\<close>, without
  compression, of size 0, with a name for which a free destination \<open>target\<close> is
  found. That same call of \<open>dataReceived\<close> opens the destination, closes it again
  empty, and writes the ack frame, whose digest is the digest of no bytes: no
  payload byte and no further delivery is needed.
\<close>

theorem empty_file_completes_on_header:
  assumes "in_header s"
    and "to_be8 (int (length hb)) = Inr pre_h" and "header_buffer s @ data = pre_h @ hb"
    and "bytes_to_dict X hb = Inr header"
    and "header ''type'' = Some (JStr ''file'')" and "header ''compression'' = None"
    and "header ''size'' = Some (JInt 0)"
    and "header ''name'' = Some (JStr nm)" and "child X nm = Inr t"
    and "find_target X (rp_downloads s) nm 1 t = Some (Inr target)"
    and "ack = [''ack'' \<mapsto> JStr ''ok'', ''sha256'' \<mapsto> JStr (sha256_hexdigest X [])]"
    and "to_be8 (int (length (dict_to_bytes X ack))) = Inr pre"
  shows "ReceiveProtocol_dataReceived X s data =
    Some (Inr (),
      s\<lparr>in_header := False, header_buffer := [],
        receiver := Some \<lparr>fd = \<lparr>fd_path = target, fd_data = [], fd_closed = True\<rparr>,
                           remaining = 0, hasher = [], progress = 0\<rparr>,
        rp_downloads := target # rp_downloads s,
        rp_transport := rp_transport s @ [pre, dict_to_bytes X ack]\<rparr>)"
proof -
  have "prefix (header_buffer s @ data) (pre_h @ hb @ [])"
    by (simp add: assms(3))
  from read_frame_prefix [OF assms(2) this] to_be8_Inr [OF assms(2)]
  have frame: "read_frame (header_buffer s @ data) = Inr (Some (hb, []))"
    by (simp add: assms(3))
  from assms(5-10)
  have opened: "incoming_file X (rp_downloads s) header =
      Some (Inr (\<lparr>fd = \<lparr>fd_path = target, fd_data = [], fd_closed = False\<rparr>,
                   remaining = int_of_jval (JInt 0), hasher = [], progress = 0\<rparr>,
                 target # rp_downloads s))"
    by (intro incoming_file_accepts) simp_all
  have wr: "Receiver_write X \<lparr>fd = \<lparr>fd_path = target, fd_data = [], fd_closed = False\<rparr>,
                   remaining = 0, hasher = [], progress = 0\<rparr> [] =
      (Inr (Some ack), \<lparr>fd = \<lparr>fd_path = target, fd_data = [], fd_closed = True\<rparr>,
                   remaining = 0, hasher = [], progress = 0\<rparr>)"
    by (simp add: Receiver_write_def fd_write_def Receiver_finish_def fd_close_def assms(11))
  from assms(1,4,12) frame opened wr show ?thesis
    by (simp add: ReceiveProtocol_dataReceived_def ReceiveProtocol_write_def)
qed

lemma demo_digest_empty: "demo_hexdigest [] = []"
  by (simp add: demo_hexdigest_def)

theorem empty_file_completes_on_header_witness:
  "ReceiveProtocol_dataReceived demo_externals
      ((ReceiveProtocol_init [])\<lparr>header_buffer := [0, 0, 0, 0, 0]\<rparr>) [0, 0, 3, 123, 48, 125] =
    Some (Inr (),
      (ReceiveProtocol_init [])
        \<lparr>in_header := False,
         receiver := Some \<lparr>fd = \<lparr>fd_path = ''e.bin'', fd_data = [], fd_closed = True\<rparr>,
                            remaining = 0, hasher = [], progress = 0\<rparr>,
         rp_downloads := [''e.bin''],
         rp_transport := [[0, 0, 0, 0, 0, 0, 0, 3], [123, 97, 125]]\<rparr>)"
proof -
  let ?s = "(ReceiveProtocol_init [])\<lparr>header_buffer := [0, 0, 0, 0, 0]\<rparr>"
  let ?ack = "[''ack'' \<mapsto> JStr ''ok'', ''sha256'' \<mapsto> JStr (sha256_hexdigest demo_externals [])]"
  have enc: "dict_to_bytes demo_externals ?ack = [123, 97, 125]"
    by (simp add: demo_externals_def demo_dict_to_bytes_def)
  have h: "in_header ?s" "to_be8 (int (length [123, 48, 125 :: byte])) = Inr [0, 0, 0, 0, 0, 0, 0, 3]"
    "header_buffer ?s @ [0, 0, 3, 123, 48, 125] = [0, 0, 0, 0, 0, 0, 0, 3] @ [123, 48, 125]"
    "bytes_to_dict demo_externals [123, 48, 125] = Inr empty_file_header"
    "empty_file_header ''type'' = Some (JStr ''file'')" "empty_file_header ''compression'' = None"
    "empty_file_header ''size'' = Some (JInt 0)" "empty_file_header ''name'' = Some (JStr ''e.bin'')"
    "child demo_externals ''e.bin'' = Inr ''e.bin''"
    "find_target demo_externals (rp_downloads ?s) ''e.bin'' 1 ''e.bin'' = Some (Inr ''e.bin'')"
    by (simp_all add: ReceiveProtocol_init_def to_be8_small demo_externals_def
        demo_bytes_to_dict_def example_header_bytes_def empty_file_header_def find_target.simps)
  have p: "to_be8 (int (length (dict_to_bytes demo_externals ?ack))) = Inr [0, 0, 0, 0, 0, 0, 0, 3]"
    by (simp add: enc to_be8_small)
  from empty_file_completes_on_header [OF h refl p] show ?thesis
    by (simp add: enc ReceiveProtocol_init_def)
qed

section \<open>Sending the files in turn\<close>

text \<open>
  Where a \<open>Connect\<close> or the control message stands in a trace that starts at file
  number \<open>i\<close>: every file from \<open>i\<close> up to it has fired \<open>"ok"\<close>, and its "send done"
  stands earlier in the trace.
\<close>

lemma open_tx_before_connect:
  "open_tx outcome i fps = pre @ Connect k sp # post \<Longrightarrow>
   i \<le> k \<and> k < i + length fps
   \<and> sp = SendProtocol_init (fp_content (fps ! (k - i))) (file_header (fps ! (k - i)))
          (int (length (fp_content (fps ! (k - i)))))
   \<and> (\<forall>j. i \<le> j \<and> j < k \<longrightarrow> SendDone j \<in> set pre \<and> outcome j = Some FiredOk)"
proof (induction fps arbitrary: i pre)
  case Nil
  then show ?case by (simp add: Cons_eq_append_conv)
next
  case (Cons fp fps)
  show ?case
  proof (cases pre)
    case Nil
    with Cons.prems show ?thesis
      by (auto split: if_splits)
  next
    case (Cons e pre1)
    with Cons.prems have isf: "fp_isfile fp"
      by (auto split: if_splits simp: Cons_eq_append_conv)
    from Cons.prems Cons isf have ok: "outcome i = Some FiredOk"
      by (auto split: option.splits done_result.splits simp: Cons_eq_append_conv)
    from Cons.prems Cons isf ok obtain pre2 where
      pre: "pre = Connect i (SendProtocol_init (fp_content fp) (file_header fp)
                    (int (length (fp_content fp)))) # SendDone i # pre2"
      and rest: "open_tx outcome (Suc i) fps = pre2 @ Connect k sp # post"
      by (auto simp: Cons_eq_append_conv)
    from Cons.IH [OF rest] have ih: "Suc i \<le> k" "k < Suc i + length fps"
      "sp = SendProtocol_init (fp_content (fps ! (k - Suc i))) (file_header (fps ! (k - Suc i)))
          (int (length (fp_content (fps ! (k - Suc i)))))"
      "\<forall>j. Suc i \<le> j \<and> j < k \<longrightarrow> SendDone j \<in> set pre2 \<and> outcome j = Some FiredOk"
      by simp_all
    from ih(1) have "k - i = Suc (k - Suc i)" by arith
    then have idx: "(fp # fps) ! (k - i) = fps ! (k - Suc i)" by simp
    have "\<forall>j. i \<le> j \<and> j < k \<longrightarrow> SendDone j \<in> set pre \<and> outcome j = Some FiredOk"
    proof (intro allI impI)
      fix j assume j: "i \<le> j \<and> j < k"
      show "SendDone j \<in> set pre \<and> outcome j = Some FiredOk"
      proof (cases "j = i")
        case True
        with pre ok show ?thesis by simp
      next
        case False
        with j have "Suc i \<le> j \<and> j < k" by simp
        with ih(4) pre show ?thesis by simp
      qed
    qed
    with ih idx show ?thesis by simp
  qed
qed

lemma open_tx_before_control:
  "open_tx outcome i fps = pre @ ControlSend m # post \<Longrightarrow>
   post = [] \<and> m = [''done'' \<mapsto> JStr ''done'']
   \<and> (\<forall>j. i \<le> j \<and> j < i + length fps \<longrightarrow> SendDone j \<in> set pre \<and> outcome j = Some FiredOk)"
proof (induction fps arbitrary: i pre)
  case Nil
  then show ?case by (auto simp: Cons_eq_append_conv)
next
  case (Cons fp fps)
  from Cons.prems have isf: "fp_isfile fp"
    by (auto split: if_splits simp: Cons_eq_append_conv)
  from Cons.prems isf have ok: "outcome i = Some FiredOk"
    by (auto split: option.splits done_result.splits simp: Cons_eq_append_conv)
  from Cons.prems isf ok obtain pre2 where
    pre: "pre = Connect i (SendProtocol_init (fp_content fp) (file_header fp)
                  (int (length (fp_content fp)))) # SendDone i # pre2"
    and rest: "open_tx outcome (Suc i) fps = pre2 @ ControlSend m # post"
    by (auto simp: Cons_eq_append_conv)
  from Cons.IH [OF rest] have ih: "post = []" "m = [''done'' \<mapsto> JStr ''done'']"
    "\<forall>j. Suc i \<le> j \<and> j < Suc i + length fps \<longrightarrow> SendDone j \<in> set pre2 \<and> outcome j = Some FiredOk"
    by blast+
  have "\<forall>j. i \<le> j \<and> j < i + length (fp # fps) \<longrightarrow> SendDone j \<in> set pre \<and> outcome j = Some FiredOk"
  proof (intro allI impI)
    fix j assume j: "i \<le> j \<and> j < i + length (fp # fps)"
    show "SendDone j \<in> set pre \<and> outcome j = Some FiredOk"
    proof (cases "j = i")
      case True
      with pre ok show ?thesis by simp
    next
      case False
      with j have "Suc i \<le> j \<and> j < Suc i + length fps" by simp
      with ih(3) pre show ?thesis by simp
    qed
  qed
  with ih(1,2) show ?case by blast
qed

text \<open>
  C8. In the trace of the sending loop over the files \<open>fps\<close>, numbered from 0: where
  the stream for file \<open>j + 1\<close> is opened (\<open>Connect (Suc j)\<close>), the observer of file
  \<open>j\<close> has fired \<open>"ok"\<close> and the loop has gone past its \<open>yield\<close> ("send done")
  earlier in the trace; where the control message is sent, it is \<open>{done: "done"}\<close>,
  it is the last thing the loop does, and every one of the files has fired \<open>"ok"\<close>
  and has its "send done" earlier in the trace. The observer fires \<open>"ok"\<close> only from
  the last branch of \<open>process_ack\<close>.
\<close>

theorem sequential_sending:
  "(open_tx outcome 0 fps = pre @ Connect (Suc j) sp # post \<longrightarrow>
      SendDone j \<in> set pre \<and> outcome j = Some FiredOk)
   \<and> (open_tx outcome 0 fps = pre @ ControlSend m # post \<longrightarrow>
      post = [] \<and> m = [''done'' \<mapsto> JStr ''done'']
      \<and> (\<forall>j < length fps. SendDone j \<in> set pre \<and> outcome j = Some FiredOk))
   \<and> (sp_done_observer s \<noteq> Some FiredOk
       \<and> sp_done_observer (snd (SendProtocol_dataReceived X s data)) = Some FiredOk \<longrightarrow>
      (\<exists>e ab rest ack. sp_expected_hexhash s = Some e
          \<and> read_frame (sp_ack_buffer s @ data) = Inr (Some (ab, rest))
          \<and> bytes_to_dict X ab = Inr ack
          \<and> ack ''ack'' = Some (JStr ''ok'') \<and> ack ''sha256'' = Some (JStr e)))
   \<and> (sp_done_observer (snd (SendProtocol_connectionLost X s)) = Some FiredOk \<longrightarrow>
      sp_done_observer s = Some FiredOk)"
proof -
  have connect: "open_tx outcome 0 fps = pre @ Connect (Suc j) sp # post \<longrightarrow>
      SendDone j \<in> set pre \<and> outcome j = Some FiredOk"
  proof
    assume "open_tx outcome 0 fps = pre @ Connect (Suc j) sp # post"
    from open_tx_before_connect [OF this] show "SendDone j \<in> set pre \<and> outcome j = Some FiredOk"
      by simp
  qed
  have control: "open_tx outcome 0 fps = pre @ ControlSend m # post \<longrightarrow>
      post = [] \<and> m = [''done'' \<mapsto> JStr ''done'']
      \<and> (\<forall>j < length fps. SendDone j \<in> set pre \<and> outcome j = Some FiredOk)"
  proof
    assume "open_tx outcome 0 fps = pre @ ControlSend m # post"
    from open_tx_before_control [OF this]
    have "post = []" and "m = [''done'' \<mapsto> JStr ''done'']"
      and "\<forall>j. 0 \<le> j \<and> j < 0 + length fps \<longrightarrow> SendDone j \<in> set pre \<and> outcome j = Some FiredOk"
      by blast+
    then show "post = [] \<and> m = [''done'' \<mapsto> JStr ''done'']
      \<and> (\<forall>j < length fps. SendDone j \<in> set pre \<and> outcome j = Some FiredOk)"
      by simp
  qed
  have ack: "sp_done_observer s \<noteq> Some FiredOk
       \<and> sp_done_observer (snd (SendProtocol_dataReceived X s data)) = Some FiredOk \<longrightarrow>
      (\<exists>e ab rest ack. sp_expected_hexhash s = Some e
          \<and> read_frame (sp_ack_buffer s @ data) = Inr (Some (ab, rest))
          \<and> bytes_to_dict X ab = Inr ack
          \<and> ack ''ack'' = Some (JStr ''ok'') \<and> ack ''sha256'' = Some (JStr e))"
    by (auto simp: SendProtocol_dataReceived_def SendProtocol_process_ack_def Let_def
        OneShotObserver_fire_def split: if_splits sum.splits option.splits prod.splits)
  have lost: "sp_done_observer (snd (SendProtocol_connectionLost X s)) = Some FiredOk \<longrightarrow>
      sp_done_observer s = Some FiredOk"
    by (auto simp: SendProtocol_connectionLost_def OneShotObserver_error_def
        split: if_splits option.splits)
  from connect control ack lost show ?thesis by blast
qed

lemma open_tx_examples:
  "open_tx all_ok 0 two_files =
     [Connect 0 (SendProtocol_init [1, 2, 3] (file_header (two_files ! 0)) 3), SendDone 0,
      Connect 1 (SendProtocol_init [] (file_header (two_files ! 1)) 0), SendDone 1,
      ControlSend [''done'' \<mapsto> JStr ''done'']]"
  "open_tx first_fails 0 two_files =
     [Connect 0 (SendProtocol_init [1, 2, 3] (file_header (two_files ! 0)) 3),
      RaisedFailure ''premature close'']"
  by (simp_all add: two_files_def all_ok_def first_fails_def)

theorem sequential_sending_witness:
  "open_tx all_ok 0 two_files =
     [Connect 0 (SendProtocol_init [1, 2, 3] (file_header (two_files ! 0)) 3), SendDone 0]
     @ Connect (Suc 0) (SendProtocol_init [] (file_header (two_files ! 1)) 0)
     # [SendDone 1, ControlSend [''done'' \<mapsto> JStr ''done'']]
   \<and> all_ok 0 = Some FiredOk \<and> all_ok 1 = Some FiredOk
   \<and> sp_done_observer (snd (SendProtocol_dataReceived demo_externals
        ((SendProtocol_init [] example_header 3)\<lparr>sp_expected_hexhash := Some ''1.2.3.''\<rparr>)
        [0, 0, 0, 0, 0, 0, 0, 3, 123, 97, 125])) = Some FiredOk
   \<and> sp_done_observer (snd (SendProtocol_connectionLost demo_externals
        ((SendProtocol_init [] example_header 3)\<lparr>sp_done := True, sp_done_observer := Some FiredOk\<rparr>)))
       = Some FiredOk"
proof -
  let ?c0 = "Connect 0 (SendProtocol_init [1, 2, 3] (file_header (two_files ! 0)) 3)"
  let ?sp1 = "SendProtocol_init [] (file_header (two_files ! 1)) 0"
  let ?done = "ControlSend [''done'' \<mapsto> JStr ''done'']"
  let ?s1 = "(SendProtocol_init [] example_header 3)\<lparr>sp_expected_hexhash := Some ''1.2.3.''\<rparr>"
  let ?s2 = "(SendProtocol_init [] example_header 3)\<lparr>sp_done := True, sp_done_observer := Some FiredOk\<rparr>"
  have t1: "open_tx all_ok 0 two_files = [?c0, SendDone 0] @ Connect (Suc 0) ?sp1 # [SendDone 1, ?done]"
    and t2: "open_tx all_ok 0 two_files =
        [?c0, SendDone 0, Connect 1 ?sp1, SendDone 1] @ ControlSend [''done'' \<mapsto> JStr ''done''] # []"
    by (simp_all add: open_tx_examples)
  have fired: "sp_done_observer (snd (SendProtocol_dataReceived demo_externals ?s1
        [0, 0, 0, 0, 0, 0, 0, 3, 123, 97, 125])) = Some FiredOk"
    using ack_frames(1) demo_decodes_acks(1)
    by (simp add: SendProtocol_dataReceived_def SendProtocol_process_ack_def SendProtocol_init_def
        OneShotObserver_fire_def ok_ack_def)
  have lost: "sp_done_observer (snd (SendProtocol_connectionLost demo_externals ?s2)) = Some FiredOk"
    by (simp add: SendProtocol_connectionLost_def)
  have unfired: "sp_done_observer ?s1 \<noteq> Some FiredOk"
    by (simp add: SendProtocol_init_def)
  from sequential_sending [of all_ok two_files "[?c0, SendDone 0]" 0 ?sp1 "[SendDone 1, ?done]"
      "[''done'' \<mapsto> JStr ''done'']" ?s1 demo_externals "[0, 0, 0, 0, 0, 0, 0, 3, 123, 97, 125]"]
    sequential_sending [of all_ok two_files "[?c0, SendDone 0, Connect 1 ?sp1, SendDone 1]" 0 ?sp1 "[]"
      "[''done'' \<mapsto> JStr ''done'']" ?s2 demo_externals "[]"]
    t1 t2 fired lost unfired
  show ?thesis by (simp add: all_ok_def)
qed

end
